theory Spec2Isabelle
  imports Main "HOL-Library.Sublist"
begin

section \<open>JavaScript values used by server.js\<close>

text \<open>
  Strings are byte lists (the UTF-8 encoding of the JavaScript string). A property of a
  JavaScript object that may be missing, \<open>null\<close> or hold a value is a \<open>field\<close>.
\<close>

datatype 'a field = Undefined | Null | Value 'a

text \<open>
  The parsed JSON request body. \<open>JObj\<close> lists the own properties of the parsed object.
  The code does nothing with a number but convert it with \<open>String\<close>, so a number is
  given by the text \<open>String\<close> renders it to (\<open>15\<close>, \<open>1.5\<close>, \<open>1e+21\<close>), which is never
  empty: its first character and the rest.
\<close>

datatype json =
    JNull
  | JBool bool
  | JNum char string
  | JStr string
  | JArr "json list"
  | JObj "(string \<times> json) list"

subsection \<open>Decimal rendering of integers in template literals\<close>

definition digit_char :: "nat \<Rightarrow> char" where
  "digit_char d = ''0123456789'' ! (d mod 10)"

function show_nat :: "nat \<Rightarrow> string" where
  "show_nat n = (if n < 10 then [digit_char n] else show_nat (n div 10) @ [digit_char (n mod 10)])"
  by pat_completeness auto
termination
  by (relation "measure id") auto

definition show_int :: "int \<Rightarrow> string" where
  "show_int i = (if i < 0 then CHR ''-'' # show_nat (nat (- i)) else show_nat (nat i))"

subsection \<open>\<open>String(x)\<close> on a JSON value\<close>

text \<open>
  \<open>Array.prototype.join\<close> with the separator \<open>,\<close>.
\<close>

fun join_comma :: "string list \<Rightarrow> string" where
  "join_comma [] = []"
| "join_comma [s] = s"
| "join_comma (s # t # ts) = s @ '','' @ join_comma (t # ts)"

text \<open>
  \<open>String\<close> of an array joins its elements, \<open>null\<close> elements rendering as the empty
  string. \<open>String\<close> of an object calls \<open>Object.prototype.toString\<close>, unless the object
  has an own property \<open>toString\<close>: a JSON value is never callable, and
  \<open>Object.prototype.valueOf\<close> returns the object, so the conversion raises a TypeError.
  \<open>Inl\<close> carries the message of the raised error.
\<close>

fun ToString :: "json \<Rightarrow> string + string"
  and element_texts :: "json list \<Rightarrow> string + string list" where
  "ToString JNull = Inr ''null''"
| "ToString (JBool b) = Inr (if b then ''true'' else ''false'')"
| "ToString (JNum c cs) = Inr (c # cs)"
| "ToString (JStr s) = Inr s"
| "ToString (JArr xs) =
     (case element_texts xs of Inl e \<Rightarrow> Inl e | Inr ss \<Rightarrow> Inr (join_comma ss))"
| "ToString (JObj kvs) =
     (if ''toString'' \<in> set (map fst kvs)
      then Inl ''Cannot convert object to primitive value''
      else Inr ''[object Object]'')"
| "element_texts [] = Inr []"
| "element_texts (x # xs) =
     (case (if x = JNull then Inr [] else ToString x) of
        Inl e \<Rightarrow> Inl e
      | Inr s \<Rightarrow> (case element_texts xs of Inl e \<Rightarrow> Inl e | Inr ss \<Rightarrow> Inr (s # ss)))"

text \<open>\<open>xs.map(String)\<close>: the first element whose conversion raises aborts the map.\<close>

fun map_String :: "json list \<Rightarrow> string + string list" where
  "map_String [] = Inr []"
| "map_String (x # xs) =
     (case ToString x of
        Inl e \<Rightarrow> Inl e
      | Inr s \<Rightarrow> (case map_String xs of Inl e \<Rightarrow> Inl e | Inr ss \<Rightarrow> Inr (s # ss)))"

subsection \<open>\<open>startsWith\<close>, \<open>endsWith\<close>, \<open>/youtu/i.test\<close>, \<open>encodeURIComponent\<close>\<close>

definition startsWith :: "string \<Rightarrow> string \<Rightarrow> bool" where
  "startsWith f p = prefix p f"

definition endsWith :: "string \<Rightarrow> string \<Rightarrow> bool" where
  "endsWith f s = suffix s f"

text \<open>
  A case-insensitive pattern of letters: each position accepts the lower-case or the
  upper-case letter. No character outside ASCII folds to an ASCII letter in a regular
  expression without the \<open>u\<close> flag.
\<close>

fun matches_here :: "(char \<times> char) list \<Rightarrow> string \<Rightarrow> bool" where
  "matches_here [] s = True"
| "matches_here (p # ps) [] = False"
| "matches_here ((l, u) # ps) (c # cs) = ((c = l \<or> c = u) \<and> matches_here ps cs)"

fun regex_test :: "(char \<times> char) list \<Rightarrow> string \<Rightarrow> bool" where
  "regex_test ps [] = matches_here ps []"
| "regex_test ps (c # cs) = (matches_here ps (c # cs) \<or> regex_test ps cs)"

definition youtu :: "(char \<times> char) list" where
  "youtu = [(CHR ''y'', CHR ''Y''), (CHR ''o'', CHR ''O''), (CHR ''u'', CHR ''U''),
            (CHR ''t'', CHR ''T''), (CHR ''u'', CHR ''U'')]"

definition test_youtu :: "string \<Rightarrow> bool" where
  "test_youtu link = regex_test youtu link"

text \<open>
  \<open>encodeURIComponent\<close> keeps the unreserved characters and writes every other byte of
  the UTF-8 encoding as \<open>%XX\<close> in upper-case hexadecimal.
\<close>

definition unreserved :: "char \<Rightarrow> bool" where
  "unreserved c =
     (c \<in> set ''ABCDEFGHIJKLMNOPQRSTUVWXYZabcdefghijklmnopqrstuvwxyz0123456789-_.!~*()''
      \<or> c = CHR 0x27)"

definition hex_digit :: "nat \<Rightarrow> char" where
  "hex_digit d = ''0123456789ABCDEF'' ! (d mod 16)"

definition percent_byte :: "char \<Rightarrow> string" where
  "percent_byte c =
     [CHR ''%'', hex_digit ((of_char c :: nat) div 16), hex_digit ((of_char c :: nat) mod 16)]"

definition encodeURIComponent :: "string \<Rightarrow> string" where
  "encodeURIComponent s = concat (map (\<lambda>c. if unreserved c then [c] else percent_byte c) s)"

section \<open>The job runner: \<open>runYtDlp\<close>\<close>

text \<open>
  What the process, the file system and the identifier generator do during one call of
  \<open>runYtDlp\<close>:
  \<^item> \<open>jobId\<close>: the value of \<open>uuidv4()\<close>;
  \<^item> \<open>downloads_dir\<close>: the constant \<open>DOWNLOADS_DIR\<close>;
  \<^item> \<open>spawn_raises\<close>: \<open>spawn\<close> throws synchronously with this message (an argument
    holding a NUL byte, for instance), which rejects the promise;
  \<^item> \<open>events\<close>: the events the child emits, in order;
  \<^item> \<open>readdir\<close>: the result of \<open>fs.readdirSync(DOWNLOADS_DIR)\<close> when the child closes,
    \<open>None\<close> when it throws;
  \<^item> \<open>sizes\<close>: the sizes \<open>fs.statSync\<close> reports, by file name; \<open>statSync\<close> throws for a
    name that is not listed here.
\<close>

datatype child_event =
    StdoutData string
  | StderrData string
  | ErrorEv "string option"
  | CloseEv "int option"

record child_env =
  jobId :: string
  downloads_dir :: string
  spawn_raises :: "string option"
  events :: "child_event list"
  readdir :: "string list option"
  sizes :: "(string \<times> nat) list"

text \<open>The object the promise resolves to; a field the object literal omits is \<open>Undefined\<close>.\<close>

record job_outcome =
  ok :: bool
  err :: "string field"
  exitCode :: "int field"
  filename :: "string field"
  stdout :: string
  stderr :: string

datatype 'a promise = Pending | Resolved 'a | Rejected string

definition spawn_args :: "child_env \<Rightarrow> string \<Rightarrow> string list" where
  "spawn_args env link =
     [''--no-progress'', ''--no-warnings'', ''-o'',
      downloads_dir env @ ''/'' @ jobId env @ '' - %(title)s.%(ext)s'',
      link]"

subsection \<open>Locating the output file\<close>

definition statSync_size :: "child_env \<Rightarrow> string \<Rightarrow> nat option" where
  "statSync_size env f = map_of (sizes env) f"

fun stat_all :: "child_env \<Rightarrow> string list \<Rightarrow> (string \<times> nat) list option" where
  "stat_all env [] = Some []"
| "stat_all env (f # fs) =
     (case statSync_size env f of
        None \<Rightarrow> None
      | Some n \<Rightarrow> (case stat_all env fs of None \<Rightarrow> None | Some ps \<Rightarrow> Some ((f, n) # ps)))"

text \<open>
  \<open>Array.prototype.sort\<close> with a comparator is stable: an element goes before the
  elements it does not compare greater than.
\<close>

fun insert_by :: "('a \<Rightarrow> 'a \<Rightarrow> int) \<Rightarrow> 'a \<Rightarrow> 'a list \<Rightarrow> 'a list" where
  "insert_by cmp x [] = [x]"
| "insert_by cmp x (y # ys) = (if cmp x y \<le> 0 then x # y # ys else y # insert_by cmp x ys)"

definition sort_by :: "('a \<Rightarrow> 'a \<Rightarrow> int) \<Rightarrow> 'a list \<Rightarrow> 'a list" where
  "sort_by cmp xs = foldr (insert_by cmp) xs []"

text \<open>The comparator of the source, \<open>sb - sa\<close>, on names paired with their sizes.\<close>

definition larger_first :: "string \<times> nat \<Rightarrow> string \<times> nat \<Rightarrow> int" where
  "larger_first a b = (let sa = int (snd a); sb = int (snd b) in sb - sa)"

text \<open>
  \<open>candidates.sort(...)\<close>: an array of one element is returned without a call of the
  comparator; with two or more, every element is compared, so a \<open>statSync\<close> that throws
  aborts the sort (\<open>None\<close>).
\<close>

definition sort_candidates :: "child_env \<Rightarrow> string list \<Rightarrow> string list option" where
  "sort_candidates env cs =
     (if length cs < 2 then Some cs
      else (case stat_all env cs of
              None \<Rightarrow> None
            | Some ps \<Rightarrow> Some (map fst (sort_by larger_first ps))))"

definition candidates_of :: "child_env \<Rightarrow> string list \<Rightarrow> string list" where
  "candidates_of env files =
     (let prefix = jobId env @ '' - ''
      in filter (\<lambda>f. startsWith f prefix \<and> \<not> endsWith f ''.part'') files)"

text \<open>The \<open>try\<close> block of the close handler: the value of \<open>found\<close>, \<open>None\<close> for \<open>null\<close>.\<close>

definition find_output :: "child_env \<Rightarrow> string option" where
  "find_output env =
     (case readdir env of
        None \<Rightarrow> None
      | Some files \<Rightarrow>
          (let candidates = candidates_of env files
           in if length candidates > 0
              then (case sort_candidates env candidates of
                      None \<Rightarrow> None
                    | Some ordered \<Rightarrow> (case ordered of [] \<Rightarrow> None | c # _ \<Rightarrow> Some c))
              else None))"

definition truthy :: "string option \<Rightarrow> bool" where
  "truthy found = (case found of None \<Rightarrow> False | Some f \<Rightarrow> f \<noteq> [])"

definition on_error :: "string option \<Rightarrow> string \<Rightarrow> string \<Rightarrow> job_outcome" where
  "on_error e out errs =
     \<lparr>ok = False,
      err = Value (case e of Some m \<Rightarrow> (if m \<noteq> [] then m else ''yt-dlp spawn error'')
                           | None \<Rightarrow> ''yt-dlp spawn error''),
      exitCode = Undefined, filename = Undefined, stdout = out, stderr = errs\<rparr>"

definition on_close :: "child_env \<Rightarrow> int option \<Rightarrow> string \<Rightarrow> string \<Rightarrow> job_outcome" where
  "on_close env code out errs =
     (let found = find_output env
      in \<lparr>ok = (code = Some 0 \<and> truthy found),
          err = Undefined,
          exitCode = (case code of None \<Rightarrow> Null | Some n \<Rightarrow> Value n),
          filename = (case found of
                        None \<Rightarrow> Null
                      | Some f \<Rightarrow> if f \<noteq> [] then Value (''/downloads/'' @ encodeURIComponent f)
                                  else Null),
          stdout = out, stderr = errs\<rparr>)"

subsection \<open>The event handlers and the promise\<close>

record child_state =
  out_buf :: string
  err_buf :: string
  settled :: "job_outcome option"

text \<open>\<open>resolve\<close> has an effect only the first time it is called.\<close>

definition resolve :: "child_state \<Rightarrow> job_outcome \<Rightarrow> child_state" where
  "resolve st r = (if settled st = None then st\<lparr>settled := Some r\<rparr> else st)"

fun on_event :: "child_env \<Rightarrow> child_state \<Rightarrow> child_event \<Rightarrow> child_state" where
  "on_event env st (StdoutData chunk) = st\<lparr>out_buf := out_buf st @ chunk\<rparr>"
| "on_event env st (StderrData chunk) = st\<lparr>err_buf := err_buf st @ chunk\<rparr>"
| "on_event env st (ErrorEv e) = resolve st (on_error e (out_buf st) (err_buf st))"
| "on_event env st (CloseEv code) = resolve st (on_close env code (out_buf st) (err_buf st))"

definition runYtDlp :: "child_env \<Rightarrow> string \<Rightarrow> job_outcome promise" where
  "runYtDlp env link =
     (case spawn_raises env of
        Some m \<Rightarrow> Rejected m
      | None \<Rightarrow>
          (case settled (foldl (on_event env) \<lparr>out_buf = [], err_buf = [], settled = None\<rparr>
                           (events env)) of
             None \<Rightarrow> Pending
           | Some r \<Rightarrow> Resolved r))"

section \<open>The batch coordinator: \<open>POST /api/download\<close>\<close>

datatype link_result =
    ValidationFailed (link: string) string
  | Started (link: string)
  | Downloaded (link: string) "string field"
  | DownloadFailed (link: string) string

datatype payload = Message string | Results "link_result list"

record response =
  status :: nat
  payload :: payload

text \<open>
  The state of the loop: the array \<open>results\<close> and the argument lists of the calls of
  \<open>spawn\<close> made so far. The n-th call of \<open>runYtDlp\<close> of a request runs in \<open>w n\<close>.
  The loop finishes, or stalls at an \<open>await\<close> on a promise that never settles, or is left
  by the exception of a rejected promise.
\<close>

record batch_state =
  results :: "link_result list"
  spawned :: "string list list"

datatype loop_exit =
    Finished (state_of: batch_state)
  | Stalled (state_of: batch_state)
  | Thrown string (state_of: batch_state)

text \<open>The template literal \<open>`exitCode ${r.exitCode}`\<close>.\<close>

definition exitCode_text :: "int field \<Rightarrow> string" where
  "exitCode_text c =
     ''exitCode '' @ (case c of Undefined \<Rightarrow> ''undefined'' | Null \<Rightarrow> ''null'' | Value n \<Rightarrow> show_int n)"

definition terminal_record :: "string \<Rightarrow> job_outcome \<Rightarrow> link_result" where
  "terminal_record l r =
     (if ok r then Downloaded l (filename r)
      else DownloadFailed l
             (if stderr r \<noteq> [] then stderr r
              else if stdout r \<noteq> [] then stdout r
              else exitCode_text (exitCode r)))"

fun process_links :: "(nat \<Rightarrow> child_env) \<Rightarrow> string list \<Rightarrow> batch_state \<Rightarrow> loop_exit" where
  "process_links w [] st = Finished st"
| "process_links w (l # rest) st =
     (if \<not> test_youtu l
      then process_links w rest
             (st\<lparr>results := results st @
                    [ValidationFailed l ''Basic validation failed: not a YouTube link'']\<rparr>)
      else
        (let env = w (length (spawned st));
             st1 = st\<lparr>results := results st @ [Started l],
                      spawned := spawned st @ [spawn_args env l]\<rparr>
         in case runYtDlp env l of
              Pending \<Rightarrow> Stalled st1
            | Rejected m \<Rightarrow> Thrown m st1
            | Resolved r \<Rightarrow>
                process_links w rest
                  (st1\<lparr>results := (results st1)[length (results st1) - 1 := terminal_record l r]\<rparr>)))"

text \<open>
  \<open>req.body.links\<close>: the own property of an object; reading a property of \<open>null\<close> raises,
  every other value has no property \<open>links\<close>.
\<close>

definition body_links :: "json \<Rightarrow> string + json option" where
  "body_links body =
     (case body of
        JObj kvs \<Rightarrow> Inr (map_of kvs ''links'')
      | JNull \<Rightarrow> Inl (''Cannot read properties of null (reading '' @ [CHR 0x27] @ ''links''
                    @ [CHR 0x27] @ '')'')
      | _ \<Rightarrow> Inr None)"

definition extract_links :: "json \<Rightarrow> string + string list" where
  "extract_links body =
     (case body_links body of
        Inl e \<Rightarrow> Inl e
      | Inr (Some (JArr xs)) \<Rightarrow>
          (case map_String xs of
             Inl e \<Rightarrow> Inl e
           | Inr ss \<Rightarrow> Inr (filter (\<lambda>s. s \<noteq> []) ss))
      | Inr _ \<Rightarrow> Inr [])"

definition MAX_links :: nat where
  "MAX_links = 15"

definition internal_error :: "string \<Rightarrow> response" where
  "internal_error m =
     \<lparr>status = 500, payload = Message (if m \<noteq> [] then m else ''Internal server error'')\<rparr>"

text \<open>
  The handler: the response sent, \<open>None\<close> when a job never settles and the request is
  left without a response, and the calls of \<open>spawn\<close> it made.
\<close>

record handled =
  reply :: "response option"
  spawns :: "string list list"

definition api_download :: "(nat \<Rightarrow> child_env) \<Rightarrow> json \<Rightarrow> handled" where
  "api_download w body =
     (case extract_links body of
        Inl e \<Rightarrow> \<lparr>reply = Some (internal_error e), spawns = []\<rparr>
      | Inr links \<Rightarrow>
          if length links = 0
          then \<lparr>reply = Some \<lparr>status = 400,
                   payload = Message (''Provide an array of youtube links in '' @ [CHR 0x22] @ ''links''
                              @ [CHR 0x22])\<rparr>,
                spawns = []\<rparr>
          else if length links > MAX_links
          then \<lparr>reply = Some \<lparr>status = 400,
                   payload = Message (''Max '' @ show_nat MAX_links @ '' links at once'')\<rparr>,
                spawns = []\<rparr>
          else (case process_links w links \<lparr>results = [], spawned = []\<rparr> of
                  Finished st \<Rightarrow>
                    \<lparr>reply = Some \<lparr>status = 200, payload = Results (results st)\<rparr>,
                     spawns = spawned st\<rparr>
                | Stalled st \<Rightarrow> \<lparr>reply = None, spawns = spawned st\<rparr>
                | Thrown m st \<Rightarrow> \<lparr>reply = Some (internal_error m), spawns = spawned st\<rparr>))"

section \<open>Sample jobs\<close>

text \<open>Jobs and worlds on which the theorems below are run.\<close>

definition two_files_job :: child_env where
  "two_files_job =
     \<lparr>jobId = ''J'', downloads_dir = ''/app/downloads'', spawn_raises = None,
      events = [StdoutData ''a'', StderrData ''b'', CloseEv (Some 0)],
      readdir = Some [''J - a.mp4'', ''J - b.mp4'', ''K - c.mp4'', ''J - d.mp4.part''],
      sizes = [(''J - a.mp4'', 5), (''J - b.mp4'', 9), (''K - c.mp4'', 50),
               (''J - d.mp4.part'', 100)]\<rparr>"

definition partial_only_job :: child_env where
  "partial_only_job =
     \<lparr>jobId = ''J'', downloads_dir = ''/app/downloads'', spawn_raises = None,
      events = [CloseEv (Some 0)],
      readdir = Some [''J - d.mp4.part'', ''K - c.mp4''],
      sizes = [(''K - c.mp4'', 50), (''J - d.mp4.part'', 100)]\<rparr>"

definition failing_job :: child_env where
  "failing_job =
     \<lparr>jobId = ''J'', downloads_dir = ''/app/downloads'', spawn_raises = None,
      events = [StdoutData ''out'', StderrData ''err'', CloseEv (Some 1)],
      readdir = Some [], sizes = []\<rparr>"

definition silent_failing_job :: child_env where
  "silent_failing_job =
     \<lparr>jobId = ''J'', downloads_dir = ''/app/downloads'', spawn_raises = None,
      events = [CloseEv (Some 1)],
      readdir = Some [], sizes = []\<rparr>"

definition missing_tool_job :: child_env where
  "missing_tool_job =
     \<lparr>jobId = ''J'', downloads_dir = ''/app/downloads'', spawn_raises = None,
      events = [ErrorEv (Some ''spawn yt-dlp ENOENT''), CloseEv (Some (- 2))],
      readdir = Some [], sizes = []\<rparr>"

definition stat_fails_job :: child_env where
  "stat_fails_job =
     \<lparr>jobId = ''J'', downloads_dir = ''/app/downloads'', spawn_raises = None,
      events = [CloseEv (Some 0)],
      readdir = Some [''J - a.mp4'', ''J - b.mp4''],
      sizes = [(''J - a.mp4'', 5)]\<rparr>"

definition every_job :: "child_env \<Rightarrow> nat \<Rightarrow> child_env" where
  "every_job env n = env"

section \<open>Properties of the job runner\<close>

lemma settled_stays:
  "settled st = Some r \<Longrightarrow> settled (foldl (on_event env) st es) = Some r"
proof (induction es arbitrary: st)
  case Nil
  then show ?case by simp
next
  case (Cons e es)
  have "settled (on_event env st e) = Some r"
    using Cons.prems by (cases e) (simp_all add: resolve_def)
  then show ?case using Cons.IH by simp
qed

lemma fold_outcome:
  "settled st = None \<Longrightarrow> settled (foldl (on_event env) st es) = Some r \<Longrightarrow>
   \<exists>pre e post. es = pre @ e # post
     \<and> (\<forall>x\<in>set pre. \<forall>m c. x \<noteq> ErrorEv m \<and> x \<noteq> CloseEv c)
     \<and> (let out = out_buf st @ concat [c. StdoutData c \<leftarrow> pre];
             errs = err_buf st @ concat [c. StderrData c \<leftarrow> pre]
         in (\<exists>m. e = ErrorEv m \<and> r = on_error m out errs)
          \<or> (\<exists>code. e = CloseEv code \<and> r = on_close env code out errs))"
proof (induction es arbitrary: st)
  case Nil
  then show ?case by simp
next
  case (Cons e es)
  show ?case
  proof (cases e)
    case (StdoutData ch)
    let ?st = "on_event env st e"
    have s: "settled ?st = None" using Cons.prems(1) StdoutData by simp
    have f: "settled (foldl (on_event env) ?st es) = Some r" using Cons.prems(2) by simp
    from Cons.IH[OF s f] obtain pre e' post where
      es: "es = pre @ e' # post"
      and pre: "\<forall>x\<in>set pre. \<forall>m c. x \<noteq> ErrorEv m \<and> x \<noteq> CloseEv c"
      and r: "(let out = out_buf ?st @ concat [c. StdoutData c \<leftarrow> pre];
             errs = err_buf ?st @ concat [c. StderrData c \<leftarrow> pre]
         in (\<exists>m. e' = ErrorEv m \<and> r = on_error m out errs)
          \<or> (\<exists>code. e' = CloseEv code \<and> r = on_close env code out errs))"
      by blast
    show ?thesis
      apply (rule exI[of _ "e # pre"], rule exI[of _ e'], rule exI[of _ post])
      using es pre r StdoutData by (simp add: Let_def)
  next
    case (StderrData ch)
    let ?st = "on_event env st e"
    have s: "settled ?st = None" using Cons.prems(1) StderrData by simp
    have f: "settled (foldl (on_event env) ?st es) = Some r" using Cons.prems(2) by simp
    from Cons.IH[OF s f] obtain pre e' post where
      es: "es = pre @ e' # post"
      and pre: "\<forall>x\<in>set pre. \<forall>m c. x \<noteq> ErrorEv m \<and> x \<noteq> CloseEv c"
      and r: "(let out = out_buf ?st @ concat [c. StdoutData c \<leftarrow> pre];
             errs = err_buf ?st @ concat [c. StderrData c \<leftarrow> pre]
         in (\<exists>m. e' = ErrorEv m \<and> r = on_error m out errs)
          \<or> (\<exists>code. e' = CloseEv code \<and> r = on_close env code out errs))"
      by blast
    show ?thesis
      apply (rule exI[of _ "e # pre"], rule exI[of _ e'], rule exI[of _ post])
      using es pre r StderrData by (simp add: Let_def)
  next
    case (ErrorEv m)
    have "settled (on_event env st e) = Some (on_error m (out_buf st) (err_buf st))"
      using Cons.prems(1) ErrorEv by (simp add: resolve_def)
    from settled_stays[OF this, where es = es] Cons.prems(2)
    have "r = on_error m (out_buf st) (err_buf st)" by simp
    then show ?thesis
      apply -
      apply (rule exI[of _ "[]"], rule exI[of _ e], rule exI[of _ es])
      using ErrorEv by simp
  next
    case (CloseEv code)
    have "settled (on_event env st e) = Some (on_close env code (out_buf st) (err_buf st))"
      using Cons.prems(1) CloseEv by (simp add: resolve_def)
    from settled_stays[OF this, where es = es] Cons.prems(2)
    have "r = on_close env code (out_buf st) (err_buf st)" by simp
    then show ?thesis
      apply -
      apply (rule exI[of _ "[]"], rule exI[of _ e], rule exI[of _ es])
      using CloseEv by simp
  qed
qed

lemma runYtDlp_Resolved:
  assumes "runYtDlp env l = Resolved r"
  shows "spawn_raises env = None \<and>
    (\<exists>pre e post. events env = pre @ e # post
     \<and> (\<forall>x\<in>set pre. \<forall>m c. x \<noteq> ErrorEv m \<and> x \<noteq> CloseEv c)
     \<and> ((\<exists>m. e = ErrorEv m \<and>
            r = on_error m (concat [c. StdoutData c \<leftarrow> pre]) (concat [c. StderrData c \<leftarrow> pre]))
        \<or> (\<exists>code. e = CloseEv code \<and>
            r = on_close env code (concat [c. StdoutData c \<leftarrow> pre])
                  (concat [c. StderrData c \<leftarrow> pre]))))"
proof -
  let ?st = "\<lparr>out_buf = [], err_buf = [], settled = None\<rparr>"
  from assms have sp: "spawn_raises env = None"
    by (auto simp: runYtDlp_def split: option.splits)
  with assms have "settled (foldl (on_event env) ?st (events env)) = Some r"
    by (auto simp: runYtDlp_def split: option.splits)
  from fold_outcome[OF _ this] sp show ?thesis by (simp add: Let_def)
qed

lemma runYtDlp_cases:
  assumes "runYtDlp env l = Resolved r"
  shows "(\<exists>m out errs. r = on_error m out errs) \<or> (\<exists>code out errs. r = on_close env code out errs)"
  using runYtDlp_Resolved[OF assms] by blast

lemma candidates_of_iff:
  "f \<in> set (candidates_of env files) \<longleftrightarrow>
     f \<in> set files \<and> startsWith f (jobId env @ '' - '') \<and> \<not> endsWith f ''.part''"
  by (auto simp: candidates_of_def)

lemma candidate_not_empty: "f \<in> set (candidates_of env files) \<Longrightarrow> f \<noteq> []"
  by (auto simp: candidates_of_def startsWith_def)

lemma set_insert_by: "set (insert_by cmp x ys) = insert x (set ys)"
  by (induction ys) auto

lemma set_sort_by: "set (sort_by cmp xs) = set xs"
  by (induction xs) (simp_all add: sort_by_def set_insert_by)

lemma sort_by_Cons: "sort_by cmp (x # xs) = insert_by cmp x (sort_by cmp xs)"
  by (simp add: sort_by_def)

text \<open>The first element after sorting has the largest size.\<close>

lemma insert_by_head_largest:
  assumes "\<And>z zs. ys = z # zs \<Longrightarrow> \<forall>p\<in>set ys. snd p \<le> snd z"
  shows "\<exists>z zs. insert_by larger_first x ys = z # zs \<and> (\<forall>p\<in>insert x (set ys). snd p \<le> snd z)"
proof (cases ys)
  case Nil
  then show ?thesis by simp
next
  case (Cons y ys')
  from assms[OF Cons] have mx: "\<forall>p\<in>set ys. snd p \<le> snd y" .
  show ?thesis
  proof (cases "larger_first x y \<le> 0")
    case True
    then have "snd y \<le> snd x" by (simp add: larger_first_def)
    with mx True Cons show ?thesis by (auto intro: order_trans)
  next
    case False
    then have "snd x \<le> snd y" by (simp add: larger_first_def)
    with mx False Cons show ?thesis by auto
  qed
qed

lemma sort_by_head_largest:
  "ps \<noteq> [] \<Longrightarrow> \<exists>z zs. sort_by larger_first ps = z # zs \<and> (\<forall>p\<in>set ps. snd p \<le> snd z)"
proof (induction ps)
  case Nil
  then show ?case by simp
next
  case (Cons p ps)
  show ?case
  proof (cases "ps = []")
    case True
    then show ?thesis by (simp add: sort_by_def)
  next
    case False
    from Cons.IH[OF False] obtain z zs where
      z: "sort_by larger_first ps = z # zs" "\<forall>q\<in>set ps. snd q \<le> snd z" by blast
    have "\<exists>z' zs'. insert_by larger_first p (sort_by larger_first ps) = z' # zs'
           \<and> (\<forall>q\<in>insert p (set (sort_by larger_first ps)). snd q \<le> snd z')"
    proof (rule insert_by_head_largest)
      fix z' zs' assume "sort_by larger_first ps = z' # zs'"
      with z have "z' = z" by simp
      moreover have "set (sort_by larger_first ps) = set ps" by (rule set_sort_by)
      ultimately show "\<forall>p\<in>set (sort_by larger_first ps). snd p \<le> snd z'" using z(2) by simp
    qed
    then show ?thesis by (simp add: sort_by_Cons set_sort_by)
  qed
qed

lemma stat_all_Some:
  "stat_all env cs = Some ps \<Longrightarrow>
     map fst ps = cs \<and> (\<forall>p\<in>set ps. statSync_size env (fst p) = Some (snd p))"
  by (induction cs arbitrary: ps) (auto split: option.splits)

lemma stat_all_None_iff:
  "stat_all env cs = None \<longleftrightarrow> (\<exists>c\<in>set cs. statSync_size env c = None)"
  by (induction cs) (auto split: option.splits)

lemma sort_candidates_Some:
  assumes "sort_candidates env cs = Some ordered" and "cs \<noteq> []"
  shows "\<exists>c rest. ordered = c # rest \<and> c \<in> set cs
           \<and> (\<forall>d\<in>set cs. \<forall>n m. statSync_size env c = Some n \<and> statSync_size env d = Some m
                  \<longrightarrow> m \<le> n)
           \<and> (\<forall>c0. cs = [c0] \<longrightarrow> c = c0)"
proof (cases "length cs < 2")
  case True
  with assms(2) obtain c0 where c0: "cs = [c0]"
    by (cases cs) (auto simp: less_Suc_eq)
  with assms(1) have "ordered = [c0]" by (simp add: sort_candidates_def)
  with c0 show ?thesis by auto
next
  case False
  with assms(1) obtain ps where ps: "stat_all env cs = Some ps"
    and ord: "ordered = map fst (sort_by larger_first ps)"
    by (auto simp: sort_candidates_def split: option.splits)
  from stat_all_Some[OF ps] have fst_ps: "map fst ps = cs"
    and sz: "\<forall>p\<in>set ps. statSync_size env (fst p) = Some (snd p)" by simp_all
  from fst_ps assms(2) have "ps \<noteq> []" by auto
  from sort_by_head_largest[OF this] obtain z zs where
    z: "sort_by larger_first ps = z # zs" and mx: "\<forall>p\<in>set ps. snd p \<le> snd z" by blast
  have zin: "z \<in> set ps" using z set_sort_by[of larger_first ps] by auto
  have c_in: "fst z \<in> set cs" using zin fst_ps by force
  have largest: "\<forall>d\<in>set cs. \<forall>n m. statSync_size env (fst z) = Some n \<and> statSync_size env d = Some m
                  \<longrightarrow> m \<le> n"
  proof (intro ballI allI impI)
    fix d n m
    assume d: "d \<in> set cs" and nm: "statSync_size env (fst z) = Some n \<and> statSync_size env d = Some m"
    from d fst_ps obtain p where p: "p \<in> set ps" "fst p = d" by force
    from sz p nm have "snd p = m" by auto
    moreover from sz zin nm have "snd z = n" by auto
    ultimately show "m \<le> n" using mx p(1) by auto
  qed
  have single: "\<forall>c0. cs = [c0] \<longrightarrow> fst z = c0" using False by auto
  show ?thesis
    apply (rule exI[of _ "fst z"], rule exI[of _ "map fst zs"])
    using ord z c_in largest single by simp
qed

lemma sort_candidates_None_iff:
  "sort_candidates env cs = None \<longleftrightarrow>
     2 \<le> length cs \<and> (\<exists>c\<in>set cs. statSync_size env c = None)"
proof (cases "length cs < 2")
  case True
  then show ?thesis by (simp add: sort_candidates_def)
next
  case False
  then have "sort_candidates env cs = None \<longleftrightarrow> stat_all env cs = None"
    by (simp add: sort_candidates_def split: option.splits)
  with False show ?thesis by (simp add: stat_all_None_iff)
qed

lemma find_output_Some:
  assumes "find_output env = Some f"
  shows "\<exists>files. readdir env = Some files \<and> f \<in> set (candidates_of env files)
     \<and> (\<forall>d\<in>set (candidates_of env files). \<forall>n m.
            statSync_size env f = Some n \<and> statSync_size env d = Some m \<longrightarrow> m \<le> n)
     \<and> (\<forall>c0. candidates_of env files = [c0] \<longrightarrow> f = c0)"
proof -
  from assms obtain files where files: "readdir env = Some files"
    by (auto simp: find_output_def split: option.splits)
  let ?cs = "candidates_of env files"
  from assms files have ne: "?cs \<noteq> []"
    by (auto simp: find_output_def Let_def split: if_splits)
  with assms files obtain ordered where o: "sort_candidates env ?cs = Some ordered"
    by (auto simp: find_output_def Let_def split: option.splits)
  from sort_candidates_Some[OF o ne] obtain c rest where
    c: "ordered = c # rest" "c \<in> set ?cs"
       "\<forall>d\<in>set ?cs. \<forall>n m. statSync_size env c = Some n \<and> statSync_size env d = Some m \<longrightarrow> m \<le> n"
       "\<forall>c0. ?cs = [c0] \<longrightarrow> c = c0"
    by blast
  from assms files ne o c(1) have "f = c"
    by (simp add: find_output_def Let_def)
  with files c show ?thesis by blast
qed

lemma find_output_None_iff:
  "find_output env = None \<longleftrightarrow>
     (case readdir env of
        None \<Rightarrow> True
      | Some files \<Rightarrow> candidates_of env files = []
          \<or> (2 \<le> length (candidates_of env files)
              \<and> (\<exists>c\<in>set (candidates_of env files). statSync_size env c = None)))"
proof (cases "readdir env")
  case None
  then show ?thesis by (simp add: find_output_def)
next
  case (Some files)
  show ?thesis
  proof (cases "candidates_of env files = []")
    case True
    with Some show ?thesis by (simp add: find_output_def)
  next
    case False
    show ?thesis
    proof (cases "sort_candidates env (candidates_of env files)")
      case None
      with Some False show ?thesis
        using sort_candidates_None_iff[of env "candidates_of env files"]
        by (simp add: find_output_def)
    next
      case (Some ordered)
      from sort_candidates_Some[OF Some False] obtain c rest where "ordered = c # rest" by blast
      with Some \<open>readdir env = Some files\<close> False show ?thesis
        using sort_candidates_None_iff[of env "candidates_of env files"]
        by (simp add: find_output_def)
    qed
  qed
qed

lemma on_close_found:
  assumes "find_output env = Some f"
  shows "on_close env code out errs =
     \<lparr>ok = (code = Some 0), err = Undefined,
      exitCode = (case code of None \<Rightarrow> Null | Some n \<Rightarrow> Value n),
      filename = Value (''/downloads/'' @ encodeURIComponent f), stdout = out, stderr = errs\<rparr>"
proof -
  from find_output_Some[OF assms] have "f \<noteq> []" using candidate_not_empty by blast
  with assms show ?thesis by (simp add: on_close_def truthy_def)
qed

lemma on_close_not_found:
  assumes "find_output env = None"
  shows "on_close env code out errs =
     \<lparr>ok = False, err = Undefined,
      exitCode = (case code of None \<Rightarrow> Null | Some n \<Rightarrow> Value n),
      filename = Null, stdout = out, stderr = errs\<rparr>"
  using assms by (simp add: on_close_def truthy_def)

lemma on_event_cong:
  assumes "\<And>code out errs. on_close env code out errs = on_close env' code out errs"
  shows "foldl (on_event env) st es = foldl (on_event env') st es"
proof (induction es arbitrary: st)
  case Nil
  show ?case by simp
next
  case (Cons e es)
  have "on_event env st e = on_event env' st e"
    by (cases e) (simp_all add: assms)
  with Cons.IH show ?case by simp
qed

lemma runYtDlp_cong:
  assumes "find_output env = find_output env'" and "spawn_raises env = spawn_raises env'"
    and "events env = events env'"
  shows "runYtDlp env l = runYtDlp env' l"
proof -
  have "\<And>code out errs. on_close env code out errs = on_close env' code out errs"
    using assms(1) by (simp add: on_close_def)
  then have fold: "\<And>st. foldl (on_event env) st (events env') = foldl (on_event env') st (events env')"
    by (rule on_event_cong)
  show ?thesis unfolding runYtDlp_def assms(2) assms(3) fold ..
qed

lemma resolved_outcome:
  assumes "runYtDlp env l = Resolved r"
  shows "ok r = (exitCode r = Value 0 \<and> find_output env \<noteq> None)
       \<and> (ok r \<longrightarrow> (\<exists>f. find_output env = Some f
                        \<and> filename r = Value (''/downloads/'' @ encodeURIComponent f)))
       \<and> (\<forall>p. filename r = Value p \<longrightarrow>
            (\<exists>f. find_output env = Some f \<and> p = ''/downloads/'' @ encodeURIComponent f))
       \<and> (exitCode r \<noteq> Undefined \<longrightarrow> find_output env = None \<longrightarrow> filename r = Null)
       \<and> (\<forall>f. exitCode r \<noteq> Undefined \<longrightarrow> find_output env = Some f \<longrightarrow>
            filename r = Value (''/downloads/'' @ encodeURIComponent f))"
proof -
  from runYtDlp_cases[OF assms] consider
    (error) m out errs where "r = on_error m out errs"
  | (close) code out errs where "r = on_close env code out errs"
    by blast
  then show ?thesis
  proof cases
    case error
    then show ?thesis by (simp add: on_error_def)
  next
    case close
    show ?thesis
    proof (cases "find_output env")
      case None
      from close on_close_not_found[OF None] show ?thesis
        using None by (simp split: option.splits)
    next
      case (Some f)
      from close on_close_found[OF Some] show ?thesis
        using Some by (auto split: option.splits)
    qed
  qed
qed

section \<open>Claims about the job runner\<close>

text \<open>
  C1 as stated fails: a job that exits with 0 and leaves two files with its prefix, neither
  ending in \<open>.part\<close>, reports a failure when \<open>statSync\<close> throws on one of them, because
  the \<open>catch\<close> of the scan leaves \<open>found\<close> empty.
\<close>

theorem stat_failure_hides_files_counterexample:
  "runYtDlp stat_fails_job ''https://youtu.be/a'' =
     Resolved \<lparr>ok = False, err = Undefined, exitCode = Value 0, filename = Null,
               stdout = [], stderr = []\<rparr>
   \<and> readdir stat_fails_job = Some [''J - a.mp4'', ''J - b.mp4'']
   \<and> startsWith ''J - a.mp4'' (jobId stat_fails_job @ '' - '')
   \<and> \<not> endsWith ''J - a.mp4'' ''.part''
   \<and> statSync_size stat_fails_job ''J - b.mp4'' = None"
  by code_simp

text \<open>
  C1, as the code has it. For every job, the outcome reports success if and only if the
  process closed with exit code 0 and the scan found a file: the directory could be listed,
  the listing holds at least one file whose name starts with the prefix of the job and
  does not end in \<open>.part\<close>, and, when it holds two or more of them, \<open>statSync\<close> succeeded
  on each. So a process that exits with 0 and leaves no such file yields a failure.
\<close>

theorem success_iff_exit_zero_and_scan_found:
  assumes "runYtDlp env l = Resolved r"
  shows "ok r \<longleftrightarrow>
           exitCode r = Value 0
         \<and> (\<exists>files. readdir env = Some files
              \<and> (\<exists>f\<in>set files. startsWith f (jobId env @ '' - '') \<and> \<not> endsWith f ''.part'')
              \<and> (2 \<le> length (candidates_of env files) \<longrightarrow>
                    (\<forall>c\<in>set (candidates_of env files). statSync_size env c \<noteq> None)))"
proof -
  from resolved_outcome[OF assms]
  have ok: "ok r = (exitCode r = Value 0 \<and> find_output env \<noteq> None)" by (rule conjunct1)
  have found: "find_output env \<noteq> None \<longleftrightarrow>
       (\<exists>files. readdir env = Some files
              \<and> (\<exists>f\<in>set files. startsWith f (jobId env @ '' - '') \<and> \<not> endsWith f ''.part'')
              \<and> (2 \<le> length (candidates_of env files) \<longrightarrow>
                    (\<forall>c\<in>set (candidates_of env files). statSync_size env c \<noteq> None)))"
  proof (cases "readdir env")
    case None
    then show ?thesis by (simp add: find_output_None_iff)
  next
    case (Some files)
    have ne: "candidates_of env files \<noteq> [] \<longleftrightarrow>
          (\<exists>f\<in>set files. startsWith f (jobId env @ '' - '') \<and> \<not> endsWith f ''.part'')"
    proof
      assume "candidates_of env files \<noteq> []"
      then obtain f where "f \<in> set (candidates_of env files)" by (cases "candidates_of env files") auto
      then show "\<exists>f\<in>set files. startsWith f (jobId env @ '' - '') \<and> \<not> endsWith f ''.part''"
        by (auto simp: candidates_of_iff)
    next
      assume "\<exists>f\<in>set files. startsWith f (jobId env @ '' - '') \<and> \<not> endsWith f ''.part''"
      then obtain f where "f \<in> set (candidates_of env files)" by (auto simp: candidates_of_iff)
      then show "candidates_of env files \<noteq> []" by auto
    qed
    have "find_output env \<noteq> None \<longleftrightarrow>
            candidates_of env files \<noteq> []
          \<and> (2 \<le> length (candidates_of env files) \<longrightarrow>
                (\<forall>c\<in>set (candidates_of env files). statSync_size env c \<noteq> None))"
      using Some by (simp add: find_output_None_iff)
    with ne Some show ?thesis by simp
  qed
  from ok found show ?thesis by simp
qed

theorem success_iff_exit_zero_and_scan_found_witness:
  "runYtDlp two_files_job ''https://youtu.be/a'' =
     Resolved \<lparr>ok = True, err = Undefined, exitCode = Value 0,
               filename = Value ''/downloads/J%20-%20b.mp4'', stdout = ''a'', stderr = ''b''\<rparr>
   \<and> readdir two_files_job = Some [''J - a.mp4'', ''J - b.mp4'', ''K - c.mp4'', ''J - d.mp4.part'']
   \<and> candidates_of two_files_job [''J - a.mp4'', ''J - b.mp4'', ''K - c.mp4'', ''J - d.mp4.part'']
       = [''J - a.mp4'', ''J - b.mp4'']
   \<and> statSync_size two_files_job ''J - a.mp4'' = Some 5
   \<and> statSync_size two_files_job ''J - b.mp4'' = Some 9
   \<and> runYtDlp partial_only_job ''https://youtu.be/a'' =
       Resolved \<lparr>ok = False, err = Undefined, exitCode = Value 0, filename = Null,
                 stdout = [], stderr = []\<rparr>
   \<and> candidates_of partial_only_job [''J - d.mp4.part'', ''K - c.mp4''] = []"
proof -
  let ?r = "\<lparr>ok = True, err = Undefined, exitCode = Value 0,
               filename = Value ''/downloads/J%20-%20b.mp4'', stdout = ''a'', stderr = ''b''\<rparr>"
  let ?files = "[''J - a.mp4'', ''J - b.mp4'', ''K - c.mp4'', ''J - d.mp4.part'']"
  let ?r' = "\<lparr>ok = False, err = Undefined, exitCode = Value 0, filename = Null,
                 stdout = [], stderr = []\<rparr>"
  have h: "runYtDlp two_files_job ''https://youtu.be/a'' = Resolved ?r" by code_simp
  have h': "runYtDlp partial_only_job ''https://youtu.be/a'' = Resolved ?r'" by code_simp
  have d: "readdir two_files_job = Some ?files" by (simp add: two_files_job_def)
  have c: "candidates_of two_files_job ?files = [''J - a.mp4'', ''J - b.mp4'']" by code_simp
  have c': "candidates_of partial_only_job [''J - d.mp4.part'', ''K - c.mp4''] = []" by code_simp
  have sa: "statSync_size two_files_job ''J - a.mp4'' = Some 5" by code_simp
  have sb: "statSync_size two_files_job ''J - b.mp4'' = Some 9" by code_simp
  note t = success_iff_exit_zero_and_scan_found[OF h] success_iff_exit_zero_and_scan_found[OF h']
  from t(1) have "\<exists>files. readdir two_files_job = Some files
              \<and> (\<exists>f\<in>set files. startsWith f (jobId two_files_job @ '' - '') \<and> \<not> endsWith f ''.part'')
              \<and> (2 \<le> length (candidates_of two_files_job files) \<longrightarrow>
                    (\<forall>c\<in>set (candidates_of two_files_job files). statSync_size two_files_job c \<noteq> None))"
    by simp
  with h h' d c c' sa sb show ?thesis by simp
qed

text \<open>
  C2 as stated fails: with exit code 0 and two candidates, one of which \<open>statSync\<close> throws
  on, the outcome has no file reference and the record of the link is a failure.
\<close>

theorem failed_stat_drops_reference_counterexample:
  "runYtDlp stat_fails_job ''https://youtu.be/a'' =
     Resolved \<lparr>ok = False, err = Undefined, exitCode = Value 0, filename = Null,
               stdout = [], stderr = []\<rparr>
   \<and> candidates_of stat_fails_job [''J - a.mp4'', ''J - b.mp4''] = [''J - a.mp4'', ''J - b.mp4'']
   \<and> terminal_record ''https://youtu.be/a''
        \<lparr>ok = False, err = Undefined, exitCode = Value 0, filename = Null,
         stdout = [], stderr = []\<rparr>
       = DownloadFailed ''https://youtu.be/a'' ''exitCode 0''"
  by code_simp

text \<open>
  C2, as the code has it. Let the process close with exit code 0 and the listing hold at
  least one candidate. If \<open>statSync\<close> succeeds on every candidate whenever there are two
  or more, the outcome is a success whose file reference is \<open>/downloads/\<close> followed by the
  percent-encoded name of a candidate of the largest size, and with exactly one candidate
  it is that candidate; the same reference is the \<open>file\<close> of the record of the link. If
  there are two or more candidates and \<open>statSync\<close> throws on one, the outcome is a failure
  without a file reference.
\<close>

theorem largest_candidate_when_sizes_known:
  assumes "runYtDlp env l = Resolved r" and "exitCode r = Value 0"
    and "readdir env = Some files"
    and "candidates_of env files \<noteq> []"
  shows "((2 \<le> length (candidates_of env files) \<longrightarrow>
            (\<forall>c\<in>set (candidates_of env files). statSync_size env c \<noteq> None))
          \<longrightarrow> (\<exists>c\<in>set (candidates_of env files).
                 ok r \<and> filename r = Value (''/downloads/'' @ encodeURIComponent c)
               \<and> terminal_record l r =
                   Downloaded l (Value (''/downloads/'' @ encodeURIComponent c))
               \<and> (\<forall>d\<in>set (candidates_of env files). \<forall>n m.
                     statSync_size env c = Some n \<and> statSync_size env d = Some m \<longrightarrow> m \<le> n)
               \<and> (\<forall>c0. candidates_of env files = [c0] \<longrightarrow> c = c0)))
       \<and> (2 \<le> length (candidates_of env files)
            \<and> (\<exists>c\<in>set (candidates_of env files). statSync_size env c = None)
          \<longrightarrow> \<not> ok r \<and> filename r = Null)"
proof -
  let ?cs = "candidates_of env files"
  note ro = resolved_outcome[OF assms(1)]
  have good: "\<exists>c\<in>set ?cs.
                 ok r \<and> filename r = Value (''/downloads/'' @ encodeURIComponent c)
               \<and> terminal_record l r =
                   Downloaded l (Value (''/downloads/'' @ encodeURIComponent c))
               \<and> (\<forall>d\<in>set ?cs. \<forall>n m.
                     statSync_size env c = Some n \<and> statSync_size env d = Some m \<longrightarrow> m \<le> n)
               \<and> (\<forall>c0. ?cs = [c0] \<longrightarrow> c = c0)"
    if st: "2 \<le> length ?cs \<longrightarrow> (\<forall>c\<in>set ?cs. statSync_size env c \<noteq> None)"
  proof -
    have "\<not> (?cs = [] \<or> (2 \<le> length ?cs \<and> (\<exists>c\<in>set ?cs. statSync_size env c = None)))"
      using assms(4) st by blast
    then have "find_output env \<noteq> None"
      by (simp add: find_output_None_iff assms(3))
    then obtain c where c: "find_output env = Some c" by auto
    from find_output_Some[OF c] obtain files' where f': "readdir env = Some files'"
      "c \<in> set (candidates_of env files')"
      "\<forall>d\<in>set (candidates_of env files'). \<forall>n m.
            statSync_size env c = Some n \<and> statSync_size env d = Some m \<longrightarrow> m \<le> n"
      "\<forall>c0. candidates_of env files' = [c0] \<longrightarrow> c = c0"
      by blast
    from f'(1) assms(3) have same: "files' = files" by simp
    from ro have "ok r = (exitCode r = Value 0 \<and> find_output env \<noteq> None)" by (rule conjunct1)
    with assms(2) c have okr: "ok r" by simp
    from ro have "ok r \<longrightarrow> (\<exists>f. find_output env = Some f
                        \<and> filename r = Value (''/downloads/'' @ encodeURIComponent f))"
      by (elim conjE)
    with okr c have fn: "filename r = Value (''/downloads/'' @ encodeURIComponent c)" by simp
    with okr have tr: "terminal_record l r = Downloaded l (Value (''/downloads/'' @ encodeURIComponent c))"
      by (simp add: terminal_record_def)
    show ?thesis
      by (rule bexI[of _ c]) (use f'(2,3,4) same okr fn tr in simp_all)
  qed
  have bad: "\<not> ok r \<and> filename r = Null"
    if "2 \<le> length ?cs \<and> (\<exists>c\<in>set ?cs. statSync_size env c = None)"
  proof -
    from that have none: "find_output env = None"
      by (simp add: find_output_None_iff assms(3))
    from ro have "ok r = (exitCode r = Value 0 \<and> find_output env \<noteq> None)" by (rule conjunct1)
    with none have nok: "\<not> ok r" by simp
    from ro have "exitCode r \<noteq> Undefined \<longrightarrow> find_output env = None \<longrightarrow> filename r = Null"
      by (elim conjE)
    with none assms(2) have "filename r = Null" by simp
    with nok show ?thesis by simp
  qed
  from good bad show ?thesis by blast
qed

theorem largest_candidate_when_sizes_known_witness:
  "runYtDlp two_files_job ''https://youtu.be/a'' =
     Resolved \<lparr>ok = True, err = Undefined, exitCode = Value 0,
               filename = Value ''/downloads/J%20-%20b.mp4'', stdout = ''a'', stderr = ''b''\<rparr>
   \<and> readdir two_files_job = Some [''J - a.mp4'', ''J - b.mp4'', ''K - c.mp4'', ''J - d.mp4.part'']
   \<and> candidates_of two_files_job [''J - a.mp4'', ''J - b.mp4'', ''K - c.mp4'', ''J - d.mp4.part'']
       = [''J - a.mp4'', ''J - b.mp4'']
   \<and> statSync_size two_files_job ''J - a.mp4'' = Some 5
   \<and> statSync_size two_files_job ''J - b.mp4'' = Some 9
   \<and> terminal_record ''https://youtu.be/a''
        \<lparr>ok = True, err = Undefined, exitCode = Value 0,
         filename = Value ''/downloads/J%20-%20b.mp4'', stdout = ''a'', stderr = ''b''\<rparr>
       = Downloaded ''https://youtu.be/a'' (Value ''/downloads/J%20-%20b.mp4'')"
proof -
  let ?r = "\<lparr>ok = True, err = Undefined, exitCode = Value 0,
               filename = Value ''/downloads/J%20-%20b.mp4'', stdout = ''a'', stderr = ''b''\<rparr>"
  let ?files = "[''J - a.mp4'', ''J - b.mp4'', ''K - c.mp4'', ''J - d.mp4.part'']"
  have h: "runYtDlp two_files_job ''https://youtu.be/a'' = Resolved ?r" by code_simp
  have e: "exitCode ?r = Value 0" by simp
  have d: "readdir two_files_job = Some ?files" by (simp add: two_files_job_def)
  have c: "candidates_of two_files_job ?files = [''J - a.mp4'', ''J - b.mp4'']" by code_simp
  have sa: "statSync_size two_files_job ''J - a.mp4'' = Some 5" by code_simp
  have sb: "statSync_size two_files_job ''J - b.mp4'' = Some 9" by code_simp
  have ne: "candidates_of two_files_job ?files \<noteq> []" by (simp add: c)
  have st: "2 \<le> length (candidates_of two_files_job ?files) \<longrightarrow>
           (\<forall>c\<in>set (candidates_of two_files_job ?files). statSync_size two_files_job c \<noteq> None)"
    by (simp add: c sa sb)
  from largest_candidate_when_sizes_known[OF h e d ne] st obtain f where
    "terminal_record ''https://youtu.be/a'' ?r =
       Downloaded ''https://youtu.be/a'' (Value (''/downloads/'' @ encodeURIComponent f))"
    "filename ?r = Value (''/downloads/'' @ encodeURIComponent f)"
    by blast
  then have "terminal_record ''https://youtu.be/a'' ?r =
       Downloaded ''https://youtu.be/a'' (Value ''/downloads/J%20-%20b.mp4'')"
    by simp
  with h d c sa sb show ?thesis by simp
qed

text \<open>
  C3. A file reference always names a listed file that carries the prefix of the job and
  does not end in \<open>.part\<close>. If every file with the prefix ends in \<open>.part\<close>, the outcome
  is a failure without a file reference, whatever the exit code, and it is the outcome the
  job has on an empty directory.
\<close>

theorem partial_files_never_selected:
  assumes "runYtDlp env l = Resolved r" and "readdir env = Some files"
  shows "(\<forall>p. filename r = Value p \<longrightarrow>
            (\<exists>f\<in>set files. p = ''/downloads/'' @ encodeURIComponent f
               \<and> startsWith f (jobId env @ '' - '') \<and> \<not> endsWith f ''.part''))
       \<and> ((\<forall>f\<in>set files. startsWith f (jobId env @ '' - '') \<longrightarrow> endsWith f ''.part'')
            \<longrightarrow> \<not> ok r \<and> (\<forall>p. filename r \<noteq> Value p)
                \<and> runYtDlp (env\<lparr>readdir := Some []\<rparr>) l = Resolved r)"
proof -
  note ro = resolved_outcome[OF assms(1)]
  have sel: "\<forall>p. filename r = Value p \<longrightarrow>
            (\<exists>f\<in>set files. p = ''/downloads/'' @ encodeURIComponent f
               \<and> startsWith f (jobId env @ '' - '') \<and> \<not> endsWith f ''.part'')"
  proof (intro allI impI)
    fix p assume "filename r = Value p"
    with ro obtain f where f: "find_output env = Some f" "p = ''/downloads/'' @ encodeURIComponent f"
      by blast
    from find_output_Some[OF f(1)] assms(2) have "f \<in> set (candidates_of env files)" by auto
    with f(2) show "\<exists>f\<in>set files. p = ''/downloads/'' @ encodeURIComponent f
               \<and> startsWith f (jobId env @ '' - '') \<and> \<not> endsWith f ''.part''"
      by (auto simp: candidates_of_iff)
  qed
  have none: "\<not> ok r \<and> (\<forall>p. filename r \<noteq> Value p)
                \<and> runYtDlp (env\<lparr>readdir := Some []\<rparr>) l = Resolved r"
    if only: "\<forall>f\<in>set files. startsWith f (jobId env @ '' - '') \<longrightarrow> endsWith f ''.part''"
  proof -
    from only have "candidates_of env files = []"
      by (auto simp: candidates_of_def filter_empty_conv)
    with assms(2) have fo: "find_output env = None"
      by (simp add: find_output_None_iff)
    have fo': "find_output (env\<lparr>readdir := Some []\<rparr>) = None"
      by (simp add: find_output_def candidates_of_def)
    have "runYtDlp env l = runYtDlp (env\<lparr>readdir := Some []\<rparr>) l"
      by (rule runYtDlp_cong) (simp_all add: fo fo')
    with assms(1) ro fo show ?thesis by auto
  qed
  from sel none show ?thesis by blast
qed

theorem partial_files_never_selected_witness:
  "runYtDlp partial_only_job ''https://youtu.be/a'' =
     Resolved \<lparr>ok = False, err = Undefined, exitCode = Value 0, filename = Null,
               stdout = [], stderr = []\<rparr>
   \<and> readdir partial_only_job = Some [''J - d.mp4.part'', ''K - c.mp4'']
   \<and> startsWith ''J - d.mp4.part'' (jobId partial_only_job @ '' - '')
   \<and> endsWith ''J - d.mp4.part'' ''.part''
   \<and> \<not> startsWith ''K - c.mp4'' (jobId partial_only_job @ '' - '')
   \<and> runYtDlp (partial_only_job\<lparr>readdir := Some []\<rparr>) ''https://youtu.be/a'' =
       Resolved \<lparr>ok = False, err = Undefined, exitCode = Value 0, filename = Null,
                 stdout = [], stderr = []\<rparr>"
proof -
  let ?r = "\<lparr>ok = False, err = Undefined, exitCode = Value 0, filename = Null,
               stdout = [], stderr = []\<rparr>"
  let ?files = "[''J - d.mp4.part'', ''K - c.mp4'']"
  have h: "runYtDlp partial_only_job ''https://youtu.be/a'' = Resolved ?r" by code_simp
  have d: "readdir partial_only_job = Some ?files" by (simp add: partial_only_job_def)
  have p: "startsWith ''J - d.mp4.part'' (jobId partial_only_job @ '' - '')
           \<and> endsWith ''J - d.mp4.part'' ''.part''
           \<and> \<not> startsWith ''K - c.mp4'' (jobId partial_only_job @ '' - '')"
    by code_simp
  then have only: "\<forall>f\<in>set ?files. startsWith f (jobId partial_only_job @ '' - '')
                     \<longrightarrow> endsWith f ''.part''"
    by simp
  from partial_files_never_selected[OF h d] only
  have "runYtDlp (partial_only_job\<lparr>readdir := Some []\<rparr>) ''https://youtu.be/a'' = Resolved ?r"
    by blast
  with h d p show ?thesis by simp
qed

section \<open>Properties of the loop over the links\<close>

lemma last_spawn_args: "last (spawn_args env l) = l"
  by (simp add: spawn_args_def)

lemma process_links_invalid:
  "\<not> test_youtu l \<Longrightarrow>
   process_links w (l # rest) st =
     process_links w rest
       (st\<lparr>results := results st @
              [ValidationFailed l ''Basic validation failed: not a YouTube link'']\<rparr>)"
  by simp

lemma process_links_resolved:
  assumes "test_youtu l" and "runYtDlp (w (length (spawned st))) l = Resolved r"
  shows "process_links w (l # rest) st =
     process_links w rest
       \<lparr>results = results st @ [terminal_record l r],
        spawned = spawned st @ [spawn_args (w (length (spawned st))) l]\<rparr>"
  using assms by (cases st) (simp add: Let_def)

lemma process_links_pending:
  assumes "test_youtu l" and "runYtDlp (w (length (spawned st))) l = Pending"
  shows "process_links w (l # rest) st =
     Stalled \<lparr>results = results st @ [Started l],
              spawned = spawned st @ [spawn_args (w (length (spawned st))) l]\<rparr>"
  using assms by (cases st) (simp add: Let_def)

lemma process_links_rejected:
  assumes "test_youtu l" and "runYtDlp (w (length (spawned st))) l = Rejected m"
  shows "process_links w (l # rest) st =
     Thrown m \<lparr>results = results st @ [Started l],
               spawned = spawned st @ [spawn_args (w (length (spawned st))) l]\<rparr>"
  using assms by (cases st) (simp add: Let_def)

lemma terminal_record_shape:
  assumes "runYtDlp env l = Resolved r"
  shows "(\<exists>f. terminal_record l' r = Downloaded l' (Value f)) \<or> (\<exists>e. terminal_record l' r = DownloadFailed l' e)"
proof (cases "ok r")
  case True
  with resolved_outcome[OF assms] obtain f where
    "filename r = Value (''/downloads/'' @ encodeURIComponent f)" by blast
  with True show ?thesis by (simp add: terminal_record_def)
next
  case False
  then show ?thesis by (simp add: terminal_record_def)
qed

lemma spawned_grows:
  "\<exists>sp. spawned (state_of (process_links w ls st)) = spawned st @ sp
        \<and> prefix (map last sp) (filter test_youtu ls)"
proof (induction ls arbitrary: st)
  case Nil
  show ?case by simp
next
  case (Cons l rest)
  show ?case
  proof (cases "test_youtu l")
    case False
    from Cons.IH[of "st\<lparr>results := results st @
              [ValidationFailed l ''Basic validation failed: not a YouTube link'']\<rparr>"]
    show ?thesis using False by (simp del: process_links.simps add: process_links_invalid)
  next
    case True
    let ?a = "spawn_args (w (length (spawned st))) l"
    show ?thesis
    proof (cases "runYtDlp (w (length (spawned st))) l")
      case Pending
      show ?thesis
        unfolding process_links_pending[where w = w and st = st, OF True Pending]
        by (rule exI[of _ "[?a]"]) (simp add: True last_spawn_args)
    next
      case (Rejected m)
      show ?thesis
        unfolding process_links_rejected[where w = w and st = st, OF True Rejected]
        by (rule exI[of _ "[?a]"]) (simp add: True last_spawn_args)
    next
      case (Resolved r)
      let ?st = "\<lparr>results = results st @ [terminal_record l r], spawned = spawned st @ [?a]\<rparr>"
      from Cons.IH[of ?st] obtain sp where
        sp: "spawned (state_of (process_links w rest ?st)) = spawned ?st @ sp"
            "prefix (map last sp) (filter test_youtu rest)" by blast
      show ?thesis
        unfolding process_links_resolved[where w = w and st = st, OF True Resolved]
        by (rule exI[of _ "?a # sp"]) (use sp in \<open>simp add: True last_spawn_args\<close>)
    qed
  qed
qed

lemma finished_spawned:
  "process_links w ls st = Finished st' \<Longrightarrow>
   \<exists>sp. spawned st' = spawned st @ sp \<and> map last sp = filter test_youtu ls"
proof (induction ls arbitrary: st)
  case Nil
  then show ?case by simp
next
  case (Cons l rest)
  show ?case
  proof (cases "test_youtu l")
    case False
    let ?st = "st\<lparr>results := results st @
              [ValidationFailed l ''Basic validation failed: not a YouTube link'']\<rparr>"
    from Cons.prems have "process_links w rest ?st = Finished st'"
      by (simp only: process_links_invalid[OF False])
    from Cons.IH[OF this] show ?thesis using False by simp
  next
    case True
    let ?a = "spawn_args (w (length (spawned st))) l"
    show ?thesis
    proof (cases "runYtDlp (w (length (spawned st))) l")
      case Pending
      with Cons.prems show ?thesis
        by (simp only: process_links_pending[where w = w and st = st, OF True Pending] loop_exit.distinct)
    next
      case (Rejected m)
      with Cons.prems show ?thesis
        by (simp only: process_links_rejected[where w = w and st = st, OF True Rejected] loop_exit.distinct)
    next
      case (Resolved r)
      let ?st = "\<lparr>results = results st @ [terminal_record l r], spawned = spawned st @ [?a]\<rparr>"
      from Cons.prems have "process_links w rest ?st = Finished st'"
        by (simp only: process_links_resolved[where w = w and st = st, OF True Resolved])
      from Cons.IH[OF this] obtain sp where
        sp: "spawned st' = spawned ?st @ sp" "map last sp = filter test_youtu rest" by blast
      show ?thesis
        by (rule exI[of _ "?a # sp"]) (use sp in \<open>simp add: True last_spawn_args\<close>)
    qed
  qed
qed

lemma finished_results:
  "process_links w ls st = Finished st' \<Longrightarrow>
   \<exists>rs. results st' = results st @ rs
     \<and> list_all2 (\<lambda>l r. link r = l
          \<and> (if test_youtu l
              then (\<exists>f. r = Downloaded l (Value f)) \<or> (\<exists>e. r = DownloadFailed l e)
              else r = ValidationFailed l ''Basic validation failed: not a YouTube link'')) ls rs"
proof (induction ls arbitrary: st)
  case Nil
  then show ?case by simp
next
  case (Cons l rest)
  show ?case
  proof (cases "test_youtu l")
    case False
    let ?x = "ValidationFailed l ''Basic validation failed: not a YouTube link''"
    let ?st = "st\<lparr>results := results st @ [?x]\<rparr>"
    from Cons.prems have "process_links w rest ?st = Finished st'"
      by (simp only: process_links_invalid[OF False])
    from Cons.IH[OF this] obtain rs where
      rs: "results st' = results ?st @ rs"
          "list_all2 (\<lambda>l r. link r = l
          \<and> (if test_youtu l
              then (\<exists>f. r = Downloaded l (Value f)) \<or> (\<exists>e. r = DownloadFailed l e)
              else r = ValidationFailed l ''Basic validation failed: not a YouTube link'')) rest rs"
      by blast
    show ?thesis
      by (rule exI[of _ "?x # rs"]) (use rs False in simp)
  next
    case True
    let ?a = "spawn_args (w (length (spawned st))) l"
    show ?thesis
    proof (cases "runYtDlp (w (length (spawned st))) l")
      case Pending
      with Cons.prems show ?thesis
        by (simp only: process_links_pending[where w = w and st = st, OF True Pending] loop_exit.distinct)
    next
      case (Rejected m)
      with Cons.prems show ?thesis
        by (simp only: process_links_rejected[where w = w and st = st, OF True Rejected] loop_exit.distinct)
    next
      case (Resolved r)
      let ?x = "terminal_record l r"
      let ?st = "\<lparr>results = results st @ [?x], spawned = spawned st @ [?a]\<rparr>"
      from Cons.prems have "process_links w rest ?st = Finished st'"
        by (simp only: process_links_resolved[where w = w and st = st, OF True Resolved])
      from Cons.IH[OF this] obtain rs where
        rs: "results st' = results ?st @ rs"
          "list_all2 (\<lambda>l r. link r = l
          \<and> (if test_youtu l
              then (\<exists>f. r = Downloaded l (Value f)) \<or> (\<exists>e. r = DownloadFailed l e)
              else r = ValidationFailed l ''Basic validation failed: not a YouTube link'')) rest rs"
        by blast
      from terminal_record_shape[OF Resolved, of l]
      have shape: "(\<exists>f. ?x = Downloaded l (Value f)) \<or> (\<exists>e. ?x = DownloadFailed l e)" .
      then have "link ?x = l" by auto
      with shape show ?thesis
        by (intro exI[of _ "?x # rs"]) (use rs True in simp)
    qed
  qed
qed

lemma settles:
  assumes "spawn_raises env = None"
    and "(\<exists>m. ErrorEv m \<in> set (events env)) \<or> (\<exists>c. CloseEv c \<in> set (events env))"
  shows "\<exists>r. runYtDlp env l = Resolved r"
proof -
  have "settled st \<noteq> None \<or> (\<exists>m. ErrorEv m \<in> set es) \<or> (\<exists>c. CloseEv c \<in> set es)
        \<Longrightarrow> settled (foldl (on_event env) st es) \<noteq> None" for st es
  proof (induction es arbitrary: st)
    case Nil
    then show ?case by simp
  next
    case (Cons e es)
    have "settled (on_event env st e) \<noteq> None \<or> (\<exists>m. ErrorEv m \<in> set es) \<or> (\<exists>c. CloseEv c \<in> set es)"
      using Cons.prems by (cases e) (auto simp: resolve_def)
    from Cons.IH[OF this] show ?case by simp
  qed
  from this[of "\<lparr>out_buf = [], err_buf = [], settled = None\<rparr>" "events env"] assms(2)
  have "settled (foldl (on_event env) \<lparr>out_buf = [], err_buf = [], settled = None\<rparr> (events env)) \<noteq> None"
    by blast
  with assms(1) show ?thesis by (auto simp: runYtDlp_def)
qed

lemma process_links_finishes:
  assumes "\<forall>n. spawn_raises (w n) = None
             \<and> ((\<exists>m. ErrorEv m \<in> set (events (w n))) \<or> (\<exists>c. CloseEv c \<in> set (events (w n))))"
  shows "\<exists>st'. process_links w ls st = Finished st'"
proof (induction ls arbitrary: st)
  case Nil
  show ?case by simp
next
  case (Cons l rest)
  show ?case
  proof (cases "test_youtu l")
    case False
    then show ?thesis using Cons.IH by (simp only: process_links_invalid[OF False])
  next
    case True
    from assms have "spawn_raises (w (length (spawned st))) = None"
      and "(\<exists>m. ErrorEv m \<in> set (events (w (length (spawned st)))))
            \<or> (\<exists>c. CloseEv c \<in> set (events (w (length (spawned st)))))"
      by blast+
    from settles[OF this] obtain r where "runYtDlp (w (length (spawned st))) l = Resolved r"
      by blast
    from process_links_resolved[where w = w and st = st, OF True this] show ?thesis using Cons.IH by simp
  qed
qed

section \<open>Properties of the request handler\<close>

lemma map_String_strings: "map_String (map JStr ls) = Inr ls"
  by (induction ls) simp_all

lemma extract_links_array:
  assumes "map_of kvs ''links'' = Some (JArr xs)" and "map_String xs = Inr ss"
  shows "extract_links (JObj kvs) = Inr (filter (\<lambda>s. s \<noteq> []) ss)"
  using assms by (simp add: extract_links_def body_links_def)

lemma extract_links_not_array:
  assumes "body \<noteq> JNull"
    and "\<forall>kvs xs. body = JObj kvs \<longrightarrow> map_of kvs ''links'' \<noteq> Some (JArr xs)"
  shows "extract_links body = Inr []"
proof (cases body)
  case (JObj kvs)
  with assms(2) have "\<forall>xs. map_of kvs ''links'' \<noteq> Some (JArr xs)" by simp
  then show ?thesis using JObj
    by (cases "map_of kvs ''links''")
       (auto simp: extract_links_def body_links_def split: json.splits)
qed (use assms(1) in \<open>simp_all add: extract_links_def body_links_def\<close>)

lemma api_download_rejects:
  assumes "extract_links body = Inr links" and "links = [] \<or> 15 < length links"
  shows "\<exists>m. api_download w body =
           \<lparr>reply = Some \<lparr>status = 400, payload = Message m\<rparr>, spawns = []\<rparr>"
  using assms by (auto simp: api_download_def MAX_links_def)

lemma api_download_accepts:
  assumes "extract_links body = Inr links" and "links \<noteq> []" and "length links \<le> 15"
  shows "api_download w body =
     (case process_links w links \<lparr>results = [], spawned = []\<rparr> of
        Finished st \<Rightarrow>
          \<lparr>reply = Some \<lparr>status = 200, payload = Results (results st)\<rparr>, spawns = spawned st\<rparr>
      | Stalled st \<Rightarrow> \<lparr>reply = None, spawns = spawned st\<rparr>
      | Thrown m st \<Rightarrow> \<lparr>reply = Some (internal_error m), spawns = spawned st\<rparr>)"
  using assms by (simp add: api_download_def MAX_links_def)

lemma accepted_reply_200:
  assumes "extract_links body = Inr links" and "links \<noteq> []" and "length links \<le> 15"
    and "reply (api_download w body) = Some \<lparr>status = 200, payload = Results rs\<rparr>"
  shows "\<exists>st. process_links w links \<lparr>results = [], spawned = []\<rparr> = Finished st
           \<and> results st = rs \<and> spawns (api_download w body) = spawned st"
proof (cases "process_links w links \<lparr>results = [], spawned = []\<rparr>")
  case (Finished st)
  with assms(4) show ?thesis
    unfolding api_download_accepts[OF assms(1,2,3)] by simp
next
  case (Stalled st)
  with assms(4) show ?thesis
    unfolding api_download_accepts[OF assms(1,2,3)] by simp
next
  case (Thrown m st)
  with assms(4) show ?thesis
    unfolding api_download_accepts[OF assms(1,2,3)] by (simp add: internal_error_def)
qed

lemma reply_200_accepted:
  assumes "extract_links body = Inr links"
    and "reply (api_download w body) = Some \<lparr>status = 200, payload = Results rs\<rparr>"
  shows "links \<noteq> [] \<and> length links \<le> 15"
proof (rule ccontr)
  assume "\<not> (links \<noteq> [] \<and> length links \<le> 15)"
  then have "links = [] \<or> 15 < length links" by auto
  from api_download_rejects[OF assms(1) this, of w] assms(2) show False by auto
qed

lemma finished_batch:
  assumes "process_links w links \<lparr>results = [], spawned = []\<rparr> = Finished st"
  shows "length (results st) = length links \<and> map link (results st) = links
       \<and> map last (spawned st) = filter test_youtu links
       \<and> (\<forall>i<length links.
            if test_youtu (links ! i)
            then (\<exists>f. results st ! i = Downloaded (links ! i) (Value f))
               \<or> (\<exists>e. results st ! i = DownloadFailed (links ! i) e)
            else results st ! i =
                   ValidationFailed (links ! i) ''Basic validation failed: not a YouTube link'')"
proof -
  let ?P = "\<lambda>l r. link r = l
          \<and> (if test_youtu l
              then (\<exists>f. r = Downloaded l (Value f)) \<or> (\<exists>e. r = DownloadFailed l e)
              else r = ValidationFailed l ''Basic validation failed: not a YouTube link'')"
  from finished_results[OF assms] have la: "list_all2 ?P links (results st)" by simp
  then have len: "length (results st) = length links" by (simp add: list_all2_lengthD)
  from la have nth: "\<forall>i<length links. ?P (links ! i) (results st ! i)"
    by (simp add: list_all2_conv_all_nth)
  have "map link (results st) = links"
    by (rule nth_equalityI) (use len nth in simp_all)
  moreover from finished_spawned[OF assms] have "map last (spawned st) = filter test_youtu links"
    by simp
  ultimately show ?thesis using len nth by simp
qed



section \<open>Claims about the batch coordinator\<close>

text \<open>
  C4. The list of links extracted from the request body has 1 to 15 entries. If every job
  settles, the handler answers 200 with a list of results; and a list of results it
  answers has the length of the list of links, names the links in their order, and
  holds only terminal records: none is the transient \<open>started\<close> record.
\<close>

theorem batch_results_match_links:
  assumes "extract_links body = Inr links"
    and "1 \<le> length links" and "length links \<le> 15"
  shows "((\<forall>n. spawn_raises (w n) = None
              \<and> ((\<exists>m. ErrorEv m \<in> set (events (w n))) \<or> (\<exists>c. CloseEv c \<in> set (events (w n)))))
           \<longrightarrow> (\<exists>rs. reply (api_download w body) =
                         Some \<lparr>status = 200, payload = Results rs\<rparr>))
       \<and> (\<forall>rs. reply (api_download w body) = Some \<lparr>status = 200, payload = Results rs\<rparr>
            \<longrightarrow> length rs = length links \<and> map link rs = links
              \<and> (\<forall>r\<in>set rs. (\<exists>f. r = Downloaded (link r) (Value f))
                           \<or> (\<exists>e. r = DownloadFailed (link r) e)
                           \<or> (\<exists>m. r = ValidationFailed (link r) m))
              \<and> (\<forall>l. Started l \<notin> set rs))"
proof -
  note ex = assms(1)
  from assms(2) have ne: "links \<noteq> []" by auto
  note acc = api_download_accepts[OF ex ne assms(3)]
  have total: "\<exists>rs. reply (api_download w body) = Some \<lparr>status = 200, payload = Results rs\<rparr>"
    if "\<forall>n. spawn_raises (w n) = None
              \<and> ((\<exists>m. ErrorEv m \<in> set (events (w n))) \<or> (\<exists>c. CloseEv c \<in> set (events (w n))))"
  proof -
    from process_links_finishes[OF that] obtain st where
      "process_links w links \<lparr>results = [], spawned = []\<rparr> = Finished st" by blast
    then show ?thesis by (simp add: acc)
  qed
  have partial: "length rs = length links \<and> map link rs = links
              \<and> (\<forall>r\<in>set rs. (\<exists>f. r = Downloaded (link r) (Value f))
                           \<or> (\<exists>e. r = DownloadFailed (link r) e)
                           \<or> (\<exists>m. r = ValidationFailed (link r) m))
              \<and> (\<forall>l. Started l \<notin> set rs)"
    if "reply (api_download w body) = Some \<lparr>status = 200, payload = Results rs\<rparr>" for rs
  proof -
    from accepted_reply_200[OF ex ne assms(3) that] obtain st where
      st: "process_links w links \<lparr>results = [], spawned = []\<rparr> = Finished st" "results st = rs"
      by blast
    note fb = finished_batch[OF st(1), unfolded st(2)]
    from fb have len: "length rs = length links"
      and lk: "map link rs = links"
      and nth: "\<forall>i<length links.
            if test_youtu (links ! i)
            then (\<exists>f. rs ! i = Downloaded (links ! i) (Value f))
               \<or> (\<exists>e. rs ! i = DownloadFailed (links ! i) e)
            else rs ! i =
                   ValidationFailed (links ! i) ''Basic validation failed: not a YouTube link''"
      by blast+
    have shape: "(\<exists>f. r = Downloaded (link r) (Value f))
                           \<or> (\<exists>e. r = DownloadFailed (link r) e)
                           \<or> (\<exists>m. r = ValidationFailed (link r) m)" if "r \<in> set rs" for r
    proof -
      from that obtain i where i: "i < length rs" "rs ! i = r" by (auto simp: in_set_conv_nth)
      with len nth have "if test_youtu (links ! i)
            then (\<exists>f. r = Downloaded (links ! i) (Value f))
               \<or> (\<exists>e. r = DownloadFailed (links ! i) e)
            else r = ValidationFailed (links ! i) ''Basic validation failed: not a YouTube link''"
        by auto
      then show ?thesis by (auto split: if_splits)
    qed
    have "Started l \<notin> set rs" for l
    proof
      assume "Started l \<in> set rs"
      from shape[OF this] show False by simp
    qed
    with len lk shape show ?thesis by blast
  qed
  from total partial show ?thesis by blast
qed

theorem batch_results_match_links_witness:
  "extract_links (JObj [(''links'', JArr [JStr ''https://youtu.be/a'', JStr ''https://example.com/b''])])
     = Inr [''https://youtu.be/a'', ''https://example.com/b'']
   \<and> 1 \<le> length [''https://youtu.be/a'', ''https://example.com/b'']
   \<and> length [''https://youtu.be/a'', ''https://example.com/b''] \<le> 15
   \<and> reply (api_download (every_job two_files_job)
         (JObj [(''links'', JArr [JStr ''https://youtu.be/a'', JStr ''https://example.com/b''])]))
       = Some \<lparr>status = 200, payload = Results
           [Downloaded ''https://youtu.be/a'' (Value ''/downloads/J%20-%20b.mp4''),
            ValidationFailed ''https://example.com/b''
              ''Basic validation failed: not a YouTube link'']\<rparr>
   \<and> map link [Downloaded ''https://youtu.be/a'' (Value ''/downloads/J%20-%20b.mp4''),
            ValidationFailed ''https://example.com/b''
              ''Basic validation failed: not a YouTube link'']
       = [''https://youtu.be/a'', ''https://example.com/b'']"
proof -
  let ?links = "[''https://youtu.be/a'', ''https://example.com/b'']"
  let ?body = "JObj [(''links'', JArr [JStr ''https://youtu.be/a'', JStr ''https://example.com/b''])]"
  let ?rs = "[Downloaded ''https://youtu.be/a'' (Value ''/downloads/J%20-%20b.mp4''),
            ValidationFailed ''https://example.com/b''
              ''Basic validation failed: not a YouTube link'']"
  have h1: "extract_links ?body = Inr ?links" by code_simp
  have h2: "1 \<le> length ?links" by simp
  have h3: "length ?links \<le> 15" by simp
  have r: "reply (api_download (every_job two_files_job) ?body)
             = Some \<lparr>status = 200, payload = Results ?rs\<rparr>"
    by code_simp
  from batch_results_match_links[OF h1 h2 h3, of "every_job two_files_job"] r
  have "map link ?rs = ?links" by blast
  with h1 h2 h3 r show ?thesis by simp
qed

text \<open>
  C5. When \<open>spawn\<close> fails for a missing tool, the outcome of the job is
  \<open>{ok: false, err: message}\<close> without an exit code, and \<open>err\<close> holds the message of the
  error. The handler does not read \<open>err\<close>: with nothing captured from the process, the
  record of the link carries \<open>exitCode undefined\<close> as its error text.
\<close>

theorem spawn_failure_loses_error_message:
  "runYtDlp missing_tool_job ''https://youtu.be/a'' =
     Resolved \<lparr>ok = False, err = Value ''spawn yt-dlp ENOENT'', exitCode = Undefined,
               filename = Undefined, stdout = [], stderr = []\<rparr>
   \<and> reply (api_download (every_job missing_tool_job)
              (JObj [(''links'', JArr [JStr ''https://youtu.be/a''])])) =
       Some \<lparr>status = 200,
             payload = Results [DownloadFailed ''https://youtu.be/a'' ''exitCode undefined'']\<rparr>"
  by code_simp




text \<open>
  C7 as stated fails: the limit is checked after the empty strings are dropped. A \<open>links\<close>
  array of 16 entries, one of them the empty string, is answered 200 with 15 results, and
  15 processes are spawned.
\<close>

theorem sixteen_entries_accepted_counterexample:
  "length (JStr [] # replicate 15 (JStr ''https://youtu.be/a'')) = 16
   \<and> reply (api_download (every_job silent_failing_job)
              (JObj [(''links'', JArr (JStr [] # replicate 15 (JStr ''https://youtu.be/a'')))])) =
       Some \<lparr>status = 200,
             payload = Results (replicate 15 (DownloadFailed ''https://youtu.be/a'' ''exitCode 1''))\<rparr>
   \<and> length (spawns (api_download (every_job silent_failing_job)
              (JObj [(''links'', JArr (JStr [] # replicate 15 (JStr ''https://youtu.be/a'')))])))
       = 15"
  by code_simp

text \<open>
  C7, as the code has it. A request body without a \<open>links\<close> array, or whose \<open>links\<close>
  entries, converted to strings and with the empty strings dropped, number zero or more
  than 15, is answered with status 400 and a message; no process is spawned and no list of
  results is returned.
\<close>

theorem malformed_batches_rejected:
  "(body \<noteq> JNull \<and> (\<forall>kvs xs. body = JObj kvs \<longrightarrow> map_of kvs ''links'' \<noteq> Some (JArr xs))
      \<longrightarrow> (\<exists>m. api_download w body =
                  \<lparr>reply = Some \<lparr>status = 400, payload = Message m\<rparr>, spawns = []\<rparr>))
   \<and> (\<forall>kvs xs ss. body = JObj kvs \<and> map_of kvs ''links'' = Some (JArr xs)
          \<and> map_String xs = Inr ss
          \<and> (filter (\<lambda>s. s \<noteq> []) ss = [] \<or> 15 < length (filter (\<lambda>s. s \<noteq> []) ss))
      \<longrightarrow> (\<exists>m. api_download w body =
                  \<lparr>reply = Some \<lparr>status = 400, payload = Message m\<rparr>, spawns = []\<rparr>))"
proof (intro conjI allI impI)
  assume "body \<noteq> JNull \<and> (\<forall>kvs xs. body = JObj kvs \<longrightarrow> map_of kvs ''links'' \<noteq> Some (JArr xs))"
  then have "extract_links body = Inr []" using extract_links_not_array by blast
  from api_download_rejects[OF this] show
    "\<exists>m. api_download w body = \<lparr>reply = Some \<lparr>status = 400, payload = Message m\<rparr>, spawns = []\<rparr>"
    by simp
next
  fix kvs xs ss
  assume a: "body = JObj kvs \<and> map_of kvs ''links'' = Some (JArr xs)
          \<and> map_String xs = Inr ss
          \<and> (filter (\<lambda>s. s \<noteq> []) ss = [] \<or> 15 < length (filter (\<lambda>s. s \<noteq> []) ss))"
  then have "extract_links body = Inr (filter (\<lambda>s. s \<noteq> []) ss)"
    using extract_links_array by blast
  from api_download_rejects[OF this] a show
    "\<exists>m. api_download w body = \<lparr>reply = Some \<lparr>status = 400, payload = Message m\<rparr>, spawns = []\<rparr>"
    by blast
qed

theorem malformed_batches_rejected_witness:
  "JObj [(''url'', JStr ''https://youtu.be/a'')] \<noteq> JNull
   \<and> map_of [(''url'', JStr ''https://youtu.be/a'')] ''links'' = None
   \<and> api_download (every_job two_files_job) (JObj [(''url'', JStr ''https://youtu.be/a'')])
       = \<lparr>reply = Some \<lparr>status = 400,
            payload = Message (''Provide an array of youtube links in '' @ [CHR 0x22] @ ''links''
                                @ [CHR 0x22])\<rparr>,
          spawns = []\<rparr>
   \<and> map_of [(''links'', JArr (replicate 16 (JStr ''https://youtu.be/a'')))] ''links''
       = Some (JArr (replicate 16 (JStr ''https://youtu.be/a'')))
   \<and> map_String (replicate 16 (JStr ''https://youtu.be/a''))
       = Inr (replicate 16 ''https://youtu.be/a'')
   \<and> 15 < length (filter (\<lambda>s. s \<noteq> []) (replicate 16 ''https://youtu.be/a''))
   \<and> api_download (every_job two_files_job)
         (JObj [(''links'', JArr (replicate 16 (JStr ''https://youtu.be/a'')))])
       = \<lparr>reply = Some \<lparr>status = 400, payload = Message ''Max 15 links at once''\<rparr>,
          spawns = []\<rparr>"
proof -
  let ?b1 = "JObj [(''url'', JStr ''https://youtu.be/a'')]"
  let ?xs = "replicate 16 (JStr ''https://youtu.be/a'')"
  let ?ss = "replicate 16 ''https://youtu.be/a''"
  let ?b2 = "JObj [(''links'', JArr ?xs)]"
  let ?w = "every_job two_files_job"
  have a1: "?b1 \<noteq> JNull \<and> (\<forall>kvs xs. ?b1 = JObj kvs \<longrightarrow> map_of kvs ''links'' \<noteq> Some (JArr xs))"
    by simp
  have m1: "map_of [(''url'', JStr ''https://youtu.be/a'')] ''links'' = None" by simp
  from malformed_batches_rejected[of ?b1 ?w] a1
  obtain m where "api_download ?w ?b1 = \<lparr>reply = Some \<lparr>status = 400, payload = Message m\<rparr>, spawns = []\<rparr>"
    by blast
  moreover have "reply (api_download ?w ?b1) = Some \<lparr>status = 400,
            payload = Message (''Provide an array of youtube links in '' @ [CHR 0x22] @ ''links''
                                @ [CHR 0x22])\<rparr>"
    by code_simp
  ultimately have r1: "api_download ?w ?b1 = \<lparr>reply = Some \<lparr>status = 400,
            payload = Message (''Provide an array of youtube links in '' @ [CHR 0x22] @ ''links''
                                @ [CHR 0x22])\<rparr>, spawns = []\<rparr>"
    by simp
  have a2: "map_of [(''links'', JArr ?xs)] ''links'' = Some (JArr ?xs)" by simp
  have a3: "map_String ?xs = Inr ?ss" by code_simp
  have a4: "15 < length (filter (\<lambda>s. s \<noteq> []) ?ss)" by code_simp
  from malformed_batches_rejected[of ?b2 ?w] a2 a3 a4
  obtain m' where "api_download ?w ?b2 = \<lparr>reply = Some \<lparr>status = 400, payload = Message m'\<rparr>, spawns = []\<rparr>"
    by blast
  moreover have "reply (api_download ?w ?b2) = Some \<lparr>status = 400, payload = Message ''Max 15 links at once''\<rparr>"
    by code_simp
  ultimately have r2: "api_download ?w ?b2
       = \<lparr>reply = Some \<lparr>status = 400, payload = Message ''Max 15 links at once''\<rparr>, spawns = []\<rparr>"
    by simp
  from m1 r1 a2 a3 a4 r2 show ?thesis by simp
qed

text \<open>
  C8 as stated fails on the text of the message: the record of a link that does not match
  carries the message of the source, not \<open>not a valid link\<close>.
\<close>

theorem validation_message_counterexample:
  "reply (api_download (every_job silent_failing_job)
            (JObj [(''links'', JArr [JStr ''https://example.com/v''])])) =
     Some \<lparr>status = 200,
           payload = Results [ValidationFailed ''https://example.com/v''
                                ''Basic validation failed: not a YouTube link'']\<rparr>
   \<and> ''Basic validation failed: not a YouTube link'' \<noteq> ''not a valid link''"
  by code_simp

text \<open>
  C8, as the code has it. No process is spawned for a link that does not match
  \<open>/youtu/i\<close>: every call of \<open>spawn\<close> carries a link that matches. The loop records
  \<open>{link, ok: false, message: "Basic validation failed: not a YouTube link"}\<close> for such a
  link and goes on with the next one, so that in the list of results of an answered
  request the entry at the position of such a link is that record, and the calls of
  \<open>spawn\<close> are those for the matching links, in order.
\<close>

theorem invalid_links_not_spawned:
  assumes "extract_links body = Inr links"
  shows "(\<forall>a\<in>set (spawns (api_download w body)). test_youtu (last a))
       \<and> (\<forall>l rest st. \<not> test_youtu l \<longrightarrow>
            process_links w (l # rest) st =
              process_links w rest
                (st\<lparr>results := results st @
                   [ValidationFailed l ''Basic validation failed: not a YouTube link'']\<rparr>))
       \<and> (\<forall>rs. reply (api_download w body) = Some \<lparr>status = 200, payload = Results rs\<rparr> \<longrightarrow>
            map last (spawns (api_download w body)) = filter test_youtu links
            \<and> length rs = length links
            \<and> (\<forall>i<length links. \<not> test_youtu (links ! i) \<longrightarrow>
                  rs ! i = ValidationFailed (links ! i)
                             ''Basic validation failed: not a YouTube link''))"
proof -
  have sp: "\<forall>a\<in>set (spawns (api_download w body)). test_youtu (last a)"
  proof (cases "links \<noteq> [] \<and> length links \<le> 15")
    case False
    then have "links = [] \<or> 15 < length links" by auto
    from api_download_rejects[OF assms this, of w] show ?thesis by auto
  next
    case True
    let ?x = "process_links w links \<lparr>results = [], spawned = []\<rparr>"
    from True have acc: "spawns (api_download w body) = spawned (state_of ?x)"
      by (cases ?x) (simp_all add: api_download_accepts[OF assms])
    from spawned_grows[of w links "\<lparr>results = [], spawned = []\<rparr>"] obtain sp where
      sp: "spawned (state_of ?x) = sp" "prefix (map last sp) (filter test_youtu links)"
      by auto
    from sp(2) have "set (map last sp) \<subseteq> set (filter test_youtu links)"
      by (rule set_mono_prefix)
    then have "\<forall>a\<in>set sp. test_youtu (last a)" by auto
    with acc sp(1) show ?thesis by simp
  qed
  have fin: "map last (spawns (api_download w body)) = filter test_youtu links
            \<and> length rs = length links
            \<and> (\<forall>i<length links. \<not> test_youtu (links ! i) \<longrightarrow>
                  rs ! i = ValidationFailed (links ! i)
                             ''Basic validation failed: not a YouTube link'')"
    if r: "reply (api_download w body) = Some \<lparr>status = 200, payload = Results rs\<rparr>" for rs
  proof -
    from reply_200_accepted[OF assms r] have ok: "links \<noteq> []" "length links \<le> 15" by simp_all
    from accepted_reply_200[OF assms ok r] obtain st where
      st: "process_links w links \<lparr>results = [], spawned = []\<rparr> = Finished st" "results st = rs"
          "spawns (api_download w body) = spawned st"
      by blast
    note fb = finished_batch[OF st(1), unfolded st(2)]
    from fb have "map last (spawned st) = filter test_youtu links" by blast
    moreover from fb have "length rs = length links" by blast
    moreover from fb have "\<forall>i<length links. \<not> test_youtu (links ! i) \<longrightarrow>
                  rs ! i = ValidationFailed (links ! i)
                             ''Basic validation failed: not a YouTube link''"
      by (auto split: if_splits)
    ultimately show ?thesis using st(3) by simp
  qed
  from sp fin process_links_invalid show ?thesis by blast
qed

theorem invalid_links_not_spawned_witness:
  "extract_links (JObj [(''links'', JArr [JStr ''https://youtu.be/a'', JStr ''https://example.com/b''])])
     = Inr [''https://youtu.be/a'', ''https://example.com/b'']
   \<and> \<not> test_youtu ''https://example.com/b''
   \<and> reply (api_download (every_job two_files_job)
         (JObj [(''links'', JArr [JStr ''https://youtu.be/a'', JStr ''https://example.com/b''])]))
       = Some \<lparr>status = 200, payload = Results
           [Downloaded ''https://youtu.be/a'' (Value ''/downloads/J%20-%20b.mp4''),
            ValidationFailed ''https://example.com/b''
              ''Basic validation failed: not a YouTube link'']\<rparr>
   \<and> map last (spawns (api_download (every_job two_files_job)
         (JObj [(''links'', JArr [JStr ''https://youtu.be/a'', JStr ''https://example.com/b''])])))
       = [''https://youtu.be/a'']"
proof -
  let ?links = "[''https://youtu.be/a'', ''https://example.com/b'']"
  let ?body = "JObj [(''links'', JArr [JStr ''https://youtu.be/a'', JStr ''https://example.com/b''])]"
  let ?rs = "[Downloaded ''https://youtu.be/a'' (Value ''/downloads/J%20-%20b.mp4''),
            ValidationFailed ''https://example.com/b''
              ''Basic validation failed: not a YouTube link'']"
  let ?w = "every_job two_files_job"
  have h: "extract_links ?body = Inr ?links" by code_simp
  have t: "test_youtu ''https://youtu.be/a'' \<and> \<not> test_youtu ''https://example.com/b''"
    by code_simp
  have r: "reply (api_download ?w ?body) = Some \<lparr>status = 200, payload = Results ?rs\<rparr>"
    by code_simp
  from invalid_links_not_spawned[OF h, of ?w] r
  have "map last (spawns (api_download ?w ?body)) = filter test_youtu ?links" by blast
  with t have "map last (spawns (api_download ?w ?body)) = [''https://youtu.be/a'']" by simp
  with h t r show ?thesis by simp
qed

text \<open>
  C9 as stated fails: with both streams written, the error message of the failed job is the
  standard error alone, not a concatenation of the two streams.
\<close>

theorem error_text_not_concatenation_counterexample:
  "runYtDlp failing_job ''https://youtu.be/a'' =
     Resolved \<lparr>ok = False, err = Undefined, exitCode = Value 1, filename = Null,
               stdout = ''out'', stderr = ''err''\<rparr>
   \<and> terminal_record ''https://youtu.be/a''
        \<lparr>ok = False, err = Undefined, exitCode = Value 1, filename = Null,
         stdout = ''out'', stderr = ''err''\<rparr> =
       DownloadFailed ''https://youtu.be/a'' ''err''
   \<and> ''err'' \<noteq> ''out'' @ ''err'' \<and> ''err'' \<noteq> ''err'' @ ''out''"
  by code_simp

text \<open>
  C9, as the code has it. The outcome of a job always carries two texts: \<open>stdout\<close>, the
  chunks the process wrote to its standard output before the outcome was produced, in
  order, and \<open>stderr\<close>, the same for its standard error. The error message of a failed
  job is \<open>stderr\<close> if it is not empty and otherwise \<open>stdout\<close> if that is not empty; it
  is never built from both.
\<close>

theorem diagnostics_are_two_streams:
  assumes "runYtDlp env l = Resolved r"
  shows "\<exists>pre e post. events env = pre @ e # post
       \<and> (\<forall>x\<in>set pre. \<forall>m c. x \<noteq> ErrorEv m \<and> x \<noteq> CloseEv c)
       \<and> ((\<exists>m. e = ErrorEv m) \<or> (\<exists>c. e = CloseEv c))
       \<and> stdout r = concat [c. StdoutData c \<leftarrow> pre]
       \<and> stderr r = concat [c. StderrData c \<leftarrow> pre]
       \<and> (\<not> ok r \<and> stderr r \<noteq> [] \<longrightarrow> terminal_record l r = DownloadFailed l (stderr r))
       \<and> (\<not> ok r \<and> stderr r = [] \<and> stdout r \<noteq> [] \<longrightarrow>
            terminal_record l r = DownloadFailed l (stdout r))"
proof -
  from runYtDlp_Resolved[OF assms] obtain pre e post where
    ev: "events env = pre @ e # post"
    and pre: "\<forall>x\<in>set pre. \<forall>m c. x \<noteq> ErrorEv m \<and> x \<noteq> CloseEv c"
    and r: "(\<exists>m. e = ErrorEv m \<and>
            r = on_error m (concat [c. StdoutData c \<leftarrow> pre]) (concat [c. StderrData c \<leftarrow> pre]))
        \<or> (\<exists>code. e = CloseEv code \<and>
            r = on_close env code (concat [c. StdoutData c \<leftarrow> pre])
                  (concat [c. StderrData c \<leftarrow> pre]))"
    by blast
  from r have e: "(\<exists>m. e = ErrorEv m) \<or> (\<exists>c. e = CloseEv c)" by blast
  from r have out: "stdout r = concat [c. StdoutData c \<leftarrow> pre]"
    by (auto simp: on_error_def on_close_def Let_def)
  from r have err: "stderr r = concat [c. StderrData c \<leftarrow> pre]"
    by (auto simp: on_error_def on_close_def Let_def)
  have m1: "\<not> ok r \<and> stderr r \<noteq> [] \<longrightarrow> terminal_record l r = DownloadFailed l (stderr r)"
    by (simp add: terminal_record_def)
  have m2: "\<not> ok r \<and> stderr r = [] \<and> stdout r \<noteq> [] \<longrightarrow>
            terminal_record l r = DownloadFailed l (stdout r)"
    by (simp add: terminal_record_def)
  show ?thesis
    by (intro exI[of _ pre] exI[of _ e] exI[of _ post] conjI) (fact ev pre e out err m1 m2)+
qed

theorem diagnostics_are_two_streams_witness:
  "runYtDlp failing_job ''https://youtu.be/a'' =
     Resolved \<lparr>ok = False, err = Undefined, exitCode = Value 1, filename = Null,
               stdout = ''out'', stderr = ''err''\<rparr>
   \<and> events failing_job = [StdoutData ''out'', StderrData ''err'', CloseEv (Some 1)]
   \<and> terminal_record ''https://youtu.be/a''
        \<lparr>ok = False, err = Undefined, exitCode = Value 1, filename = Null,
         stdout = ''out'', stderr = ''err''\<rparr>
       = DownloadFailed ''https://youtu.be/a'' ''err''"
proof -
  let ?r = "\<lparr>ok = False, err = Undefined, exitCode = Value 1, filename = Null,
               stdout = ''out'', stderr = ''err''\<rparr>"
  have h: "runYtDlp failing_job ''https://youtu.be/a'' = Resolved ?r" by code_simp
  have e: "events failing_job = [StdoutData ''out'', StderrData ''err'', CloseEv (Some 1)]"
    by (simp add: failing_job_def)
  from diagnostics_are_two_streams[OF h]
  have "\<not> ok ?r \<and> stderr ?r \<noteq> [] \<longrightarrow>
          terminal_record ''https://youtu.be/a'' ?r = DownloadFailed ''https://youtu.be/a'' (stderr ?r)"
    by blast
  then have "terminal_record ''https://youtu.be/a'' ?r = DownloadFailed ''https://youtu.be/a'' ''err''"
    by simp
  with h e show ?thesis by simp
qed

text \<open>
  C10. The checks on the number of links are made on the entries of the \<open>links\<close> array
  converted to strings, without the empty strings: the request is answered 400 exactly
  when none or more than 15 of them are left, and a list of results that is answered has
  one entry for each of them, in order. An array of 16 strings of which one is empty is
  not answered 400, and is answered with 15 results when every job settles.
\<close>

theorem checks_follow_coercion_and_filter:
  assumes "map_of kvs ''links'' = Some (JArr xs)" and "map_String xs = Inr ss"
  shows "((\<exists>m. reply (api_download w (JObj kvs)) = Some \<lparr>status = 400, payload = Message m\<rparr>)
            \<longleftrightarrow> filter (\<lambda>s. s \<noteq> []) ss = [] \<or> 15 < length (filter (\<lambda>s. s \<noteq> []) ss))
       \<and> (\<forall>rs. reply (api_download w (JObj kvs)) = Some \<lparr>status = 200, payload = Results rs\<rparr>
            \<longrightarrow> length rs = length (filter (\<lambda>s. s \<noteq> []) ss)
              \<and> map link rs = filter (\<lambda>s. s \<noteq> []) ss
              \<and> length rs \<le> length xs)
       \<and> (\<forall>ls. xs = map JStr ls \<and> length ls = 16 \<and> length (filter (\<lambda>s. s = []) ls) = 1
            \<longrightarrow> (\<forall>m. reply (api_download w (JObj kvs))
                         \<noteq> Some \<lparr>status = 400, payload = Message m\<rparr>)
              \<and> ((\<forall>n. spawn_raises (w n) = None
                       \<and> ((\<exists>m. ErrorEv m \<in> set (events (w n)))
                          \<or> (\<exists>c. CloseEv c \<in> set (events (w n)))))
                  \<longrightarrow> (\<exists>rs. reply (api_download w (JObj kvs)) =
                               Some \<lparr>status = 200, payload = Results rs\<rparr>
                             \<and> length rs = 15)))"
proof -
  let ?links = "filter (\<lambda>s. s \<noteq> []) ss"
  let ?reply = "reply (api_download w (JObj kvs))"
  note ex = extract_links_array[OF assms]
  have lenss: "length ss = length xs"
    using assms(2)
  proof (induction xs arbitrary: ss)
    case Nil
    then show ?case by simp
  next
    case (Cons x xs)
    then show ?case by (auto split: sum.splits)
  qed
  have rej: "(\<exists>m. ?reply = Some \<lparr>status = 400, payload = Message m\<rparr>)
               \<longleftrightarrow> ?links = [] \<or> 15 < length ?links"
  proof
    assume "?links = [] \<or> 15 < length ?links"
    from api_download_rejects[OF ex this, of w]
    show "\<exists>m. ?reply = Some \<lparr>status = 400, payload = Message m\<rparr>" by auto
  next
    assume a: "\<exists>m. ?reply = Some \<lparr>status = 400, payload = Message m\<rparr>"
    show "?links = [] \<or> 15 < length ?links"
    proof (rule ccontr)
      assume "\<not> (?links = [] \<or> 15 < length ?links)"
      then have ok: "?links \<noteq> []" "length ?links \<le> 15" by auto
      from a show False
        unfolding api_download_accepts[OF ex ok]
        by (cases "process_links w ?links \<lparr>results = [], spawned = []\<rparr>")
           (auto simp: internal_error_def)
    qed
  qed
  have res: "length rs = length ?links \<and> map link rs = ?links \<and> length rs \<le> length xs"
    if r: "?reply = Some \<lparr>status = 200, payload = Results rs\<rparr>" for rs
  proof -
    from reply_200_accepted[OF ex r] have ok: "?links \<noteq> []" "length ?links \<le> 15" by simp_all
    from accepted_reply_200[OF ex ok r] obtain st where
      st: "process_links w ?links \<lparr>results = [], spawned = []\<rparr> = Finished st" "results st = rs"
      by blast
    note fb = finished_batch[OF st(1), unfolded st(2)]
    from fb have l: "length rs = length ?links" by blast
    from fb have m: "map link rs = ?links" by blast
    have "length ?links \<le> length ss" by simp
    with l m lenss show ?thesis by simp
  qed
  have sixteen: "(\<forall>m. ?reply \<noteq> Some \<lparr>status = 400, payload = Message m\<rparr>)
              \<and> ((\<forall>n. spawn_raises (w n) = None
                       \<and> ((\<exists>m. ErrorEv m \<in> set (events (w n)))
                          \<or> (\<exists>c. CloseEv c \<in> set (events (w n)))))
                  \<longrightarrow> (\<exists>rs. ?reply = Some \<lparr>status = 200, payload = Results rs\<rparr>
                             \<and> length rs = 15))"
    if a: "xs = map JStr ls \<and> length ls = 16 \<and> length (filter (\<lambda>s. s = []) ls) = 1" for ls
  proof -
    from a assms(2) have "ss = ls" by (simp add: map_String_strings)
    moreover have "length (filter (\<lambda>s. s = []) ls) + length (filter (\<lambda>s. s \<noteq> []) ls) = length ls"
      using sum_length_filter_compl[of "\<lambda>s. s = []" ls] by simp
    ultimately have n15: "length ?links = 15" using a by simp
    then have ok: "?links \<noteq> []" "length ?links \<le> 15" by auto
    from rej n15 have no400: "\<forall>m. ?reply \<noteq> Some \<lparr>status = 400, payload = Message m\<rparr>"
      by auto
    have "\<exists>rs. ?reply = Some \<lparr>status = 200, payload = Results rs\<rparr> \<and> length rs = 15"
      if "\<forall>n. spawn_raises (w n) = None
                       \<and> ((\<exists>m. ErrorEv m \<in> set (events (w n)))
                          \<or> (\<exists>c. CloseEv c \<in> set (events (w n))))"
    proof -
      from process_links_finishes[OF that] obtain st where
        st: "process_links w ?links \<lparr>results = [], spawned = []\<rparr> = Finished st" by blast
      then have "?reply = Some \<lparr>status = 200, payload = Results (results st)\<rparr>"
        by (simp add: api_download_accepts[OF ex ok])
      with res[OF this] n15 show ?thesis by simp
    qed
    with no400 show ?thesis by blast
  qed
  from rej res sixteen show ?thesis by blast
qed

theorem checks_follow_coercion_and_filter_witness:
  "map_of [(''links'', JArr (map JStr (''https://example.com/b'' # [] # replicate 14 ''https://youtu.be/a'')))]
      ''links''
     = Some (JArr (map JStr (''https://example.com/b'' # [] # replicate 14 ''https://youtu.be/a'')))
   \<and> map_String (map JStr (''https://example.com/b'' # [] # replicate 14 ''https://youtu.be/a''))
       = Inr (''https://example.com/b'' # [] # replicate 14 ''https://youtu.be/a'')
   \<and> length (''https://example.com/b'' # [] # replicate 14 ''https://youtu.be/a'') = 16
   \<and> length (filter (\<lambda>s. s = []) (''https://example.com/b'' # [] # replicate 14 ''https://youtu.be/a''))
       = 1
   \<and> reply (api_download (every_job two_files_job)
         (JObj [(''links'',
            JArr (map JStr (''https://example.com/b'' # [] # replicate 14 ''https://youtu.be/a'')))]))
       = Some \<lparr>status = 200, payload = Results
           (ValidationFailed ''https://example.com/b''
              ''Basic validation failed: not a YouTube link''
            # replicate 14
                (Downloaded ''https://youtu.be/a'' (Value ''/downloads/J%20-%20b.mp4'')))\<rparr>
   \<and> length (ValidationFailed ''https://example.com/b''
              ''Basic validation failed: not a YouTube link''
            # replicate 14
                (Downloaded ''https://youtu.be/a'' (Value ''/downloads/J%20-%20b.mp4''))) = 15"
proof -
  let ?ls = "''https://example.com/b'' # [] # replicate 14 ''https://youtu.be/a''"
  let ?xs = "map JStr ?ls"
  let ?kvs = "[(''links'', JArr ?xs)]"
  let ?rs = "ValidationFailed ''https://example.com/b''
              ''Basic validation failed: not a YouTube link''
            # replicate 14
                (Downloaded ''https://youtu.be/a'' (Value ''/downloads/J%20-%20b.mp4''))"
  let ?w = "every_job two_files_job"
  have h1: "map_of ?kvs ''links'' = Some (JArr ?xs)" by simp
  have h2: "map_String ?xs = Inr ?ls" by (rule map_String_strings)
  have l16: "length ?ls = 16" by simp
  have e1: "length (filter (\<lambda>s. s = []) ?ls) = 1" by simp
  have r: "reply (api_download ?w (JObj ?kvs)) = Some \<lparr>status = 200, payload = Results ?rs\<rparr>"
    by code_simp
  from checks_follow_coercion_and_filter[OF h1 h2, of ?w] r
  have "length ?rs = length (filter (\<lambda>s. s \<noteq> []) ?ls)" by blast
  then have "length ?rs = 15" by simp
  with h1 h2 l16 e1 r show ?thesis by simp
qed

end
